theory Spec2Isabelle
  imports Main "HOL-Library.Word"
begin

unbundle bit_operations_syntax

section \<open>Machine types\<close>

text \<open>
  The driver computes on fixed-width unsigned integers. \<open>u8\<close>, \<open>u16\<close>, \<open>u32\<close> and
  \<open>u64\<close> are the kernel's types of those names. C's \<open>unsigned long\<close> is as wide as
  the target's machine word (32 bits on 32-bit ARM, 64 bits on arm64), so it is a word
  of an arbitrary width \<open>'l\<close> here; every result below holds for each width.
\<close>

type_synonym u8 = "8 word"
type_synonym u16 = "16 word"
type_synonym u32 = "32 word"
type_synonym u64 = "64 word"

text \<open>
  What C leaves undefined is a value of the model: reading an array beyond its last
  element, dividing by zero, shifting by the width of the type or more, reading a
  variable that was never written.
\<close>

datatype fault = Out_of_bounds | Div_by_zero | Bad_shift | Uninitialised

section \<open>Frequency tables\<close>

text \<open>
  Modelled from the spec: \<open>struct freq_tbl\<close> is declared in \<open>clk-rcg.h\<close>, which is
  not among the sources. The fields are those the code reads (\<open>f->freq\<close>, \<open>f->src\<close>,
  \<open>f->pre_div\<close>, \<open>f->m\<close>, \<open>f->n\<close>) and the spec's data model lists (targetFrequency,
  parentSourceIndex, preDivider, multiplierM, divisorN); their widths are the kernel
  header's: \<open>unsigned long freq; u8 src; u8 pre_div; u16 m; u16 n\<close>. The fields \<open>m\<close>
  and \<open>n\<close> are called \<open>tbl_m\<close> and \<open>tbl_n\<close>.
\<close>

record (overloaded) 'l freq_tbl =
  freq :: "'l word"
  src :: u8
  pre_div :: u8
  tbl_m :: u16
  tbl_n :: u16

text \<open>
  A table is a pointer to an array that a record with \<open>freq = 0\<close> ends: \<open>None\<close> is
  the NULL pointer, \<open>Some tbl\<close> the array. \<open>find_freq\<close> returns a pointer into the
  array, here the index of the record together with the record, or NULL. The loop
  \<open>for (; f->freq; f++)\<close> reads one record after the other; on an array that holds no
  terminating record it reads beyond the end.
\<close>

fun find_freq_from ::
  "('l::len) freq_tbl list \<Rightarrow> nat \<Rightarrow> 'l word \<Rightarrow> fault + (nat \<times> 'l freq_tbl) option" where
  "find_freq_from [] i rate = Inl Out_of_bounds"
| "find_freq_from (e # es) i rate =
     (if freq e = 0 then Inr None
      else if rate \<le> freq e then Inr (Some (i, e))
      else find_freq_from es (Suc i) rate)"

definition find_freq ::
  "('l::len) freq_tbl list option \<Rightarrow> 'l word \<Rightarrow> fault + (nat \<times> 'l freq_tbl) option" where
  "find_freq f rate =
     (case f of
        None \<Rightarrow> Inr None
      | Some tbl \<Rightarrow> find_freq_from tbl 0 rate)"

text \<open>The records of a table that stand before its terminating record.\<close>

definition entries :: "('l::len) freq_tbl list \<Rightarrow> 'l freq_tbl list" where
  "entries tbl = takeWhile (\<lambda>e. freq e \<noteq> 0) tbl"

definition terminated :: "('l::len) freq_tbl list \<Rightarrow> bool" where
  "terminated tbl = list_ex (\<lambda>e. freq e = 0) tbl"

section \<open>Registers behind regmap\<close>

text \<open>
  Modelled from the spec: \<open>regmap_read\<close> and \<open>regmap_update_bits\<close> belong to the
  kernel's regmap layer (\<open>linux/regmap.h\<close>), which is not among the sources. The spec
  gives the interface: \<open>read(offset) -> value|error\<close> and
  \<open>update_bits(offset, mask, value) -> success|error\<close> (read-modify-write), either of
  which may fail with a bus error.

  The hardware is a register file. Each access is numbered by \<open>clock\<close>; \<open>bus w i\<close> is
  the return code of access \<open>i\<close> (0, or a negative errno), and \<open>async w i\<close> is what the
  hardware does to its registers by itself before access \<open>i\<close> (clearing the update bit
  once a configuration is latched, for instance). Both are arbitrary, so a statement
  about every \<open>world\<close> is one about every behaviour of bus and hardware. \<open>trace\<close>
  records what the driver did, in order.
\<close>

datatype event =
  Ev_read u32 "int + u32"
| Ev_update u32 u32 u32 int
| Ev_udelay nat
| Ev_warn string

record world =
  regs :: "u32 \<Rightarrow> u32"
  clock :: nat
  bus :: "nat \<Rightarrow> int"
  async :: "nat \<Rightarrow> (u32 \<Rightarrow> u32) \<Rightarrow> (u32 \<Rightarrow> u32)"
  trace :: "event list"

definition hw_tick :: "world \<Rightarrow> world" where
  "hw_tick w = w\<lparr>regs := async w (clock w) (regs w), clock := Suc (clock w)\<rparr>"

definition log_event :: "event \<Rightarrow> world \<Rightarrow> world" where
  "log_event ev w = w\<lparr>trace := trace w @ [ev]\<rparr>"

definition regmap_read :: "world \<Rightarrow> u32 \<Rightarrow> (int + u32) \<times> world" where
  "regmap_read w reg =
     (let ret = bus w (clock w); w1 = hw_tick w;
          res = (if ret \<noteq> 0 then Inl ret else Inr (regs w1 reg))
      in (res, log_event (Ev_read reg res) w1))"

definition regmap_update_bits :: "world \<Rightarrow> u32 \<Rightarrow> u32 \<Rightarrow> u32 \<Rightarrow> int \<times> world" where
  "regmap_update_bits w reg msk val =
     (let ret = bus w (clock w); w1 = hw_tick w;
          w2 = (if ret \<noteq> 0 then w1
                else w1\<lparr>regs := (regs w1)(reg := (regs w1 reg AND NOT msk) OR (val AND msk))\<rparr>)
      in (ret, log_event (Ev_update reg msk val ret) w2))"

definition udelay :: "nat \<Rightarrow> world \<Rightarrow> world" where
  "udelay us w = log_event (Ev_udelay us) w"

definition WARN :: "string \<Rightarrow> world \<Rightarrow> world" where
  "WARN msg w = log_event (Ev_warn msg) w"

section \<open>The clock and its descriptor\<close>

text \<open>
  Modelled from the spec: \<open>struct clk\<close> and its accessors (\<open>__clk_get_name\<close>,
  \<open>__clk_get_num_parents\<close>, \<open>__clk_get_flags\<close>, \<open>clk_get_parent_by_index\<close>,
  \<open>__clk_get_rate\<close>) belong to the clock framework, which is not among the sources.
  The spec names what the framework supplies: the number of parents, parent clock
  handles, a way to query a parent's current rate, and the caller's policy flag for
  whether a rate change may propagate to the parent. A parent handle is a number, NULL
  is \<open>None\<close>; the number of parents is the framework's \<open>u8\<close>.
\<close>

record (overloaded) 'l clk =
  clk_name :: string
  clk_num_parents :: u8
  clk_flags :: "'l word"
  clk_parent_by_index :: "u8 \<Rightarrow> nat option"
  clk_rate :: "nat option \<Rightarrow> 'l word"

text \<open>
  Modelled from the spec: \<open>struct clk_rcg2\<close> is declared in \<open>clk-rcg.h\<close>, which is
  not among the sources. The fields are those the code reads and the spec's
  RcgDeviceState lists: \<open>u32 cmd_rcgr; u8 mnd_width; u8 hid_width;
  const u8 *parent_map; const struct freq_tbl *freq_tbl\<close>, and the clock \<open>clkr.hw.clk\<close>.
  The registers behind \<open>clkr.regmap\<close> are the \<open>world\<close>.
\<close>

record (overloaded) 'l clk_rcg2 =
  cmd_rcgr :: u32
  mnd_width :: u8
  hid_width :: u8
  parent_map :: "u8 list"
  freq_tbl :: "'l freq_tbl list option"
  hw_clk :: "'l clk"

subsection \<open>Constants\<close>

definition CMD_REG :: u32 where "CMD_REG = 0x0"
definition CMD_UPDATE :: u32 where "CMD_UPDATE = push_bit 0 1"
definition CMD_ROOT_OFF :: u32 where "CMD_ROOT_OFF = push_bit 31 1"
definition CFG_REG :: u32 where "CFG_REG = 0x4"
definition CFG_SRC_DIV_SHIFT :: nat where "CFG_SRC_DIV_SHIFT = 0"
definition CFG_SRC_SEL_SHIFT :: nat where "CFG_SRC_SEL_SHIFT = 8"
definition CFG_SRC_SEL_MASK :: u32 where "CFG_SRC_SEL_MASK = push_bit CFG_SRC_SEL_SHIFT 0x7"
definition CFG_MODE_SHIFT :: nat where "CFG_MODE_SHIFT = 12"
definition CFG_MODE_MASK :: u32 where "CFG_MODE_MASK = push_bit CFG_MODE_SHIFT 0x3"
definition CFG_MODE_DUAL_EDGE :: u32 where "CFG_MODE_DUAL_EDGE = push_bit CFG_MODE_SHIFT 0x2"
definition M_REG :: u32 where "M_REG = 0x8"
definition N_REG :: u32 where "N_REG = 0xc"
definition D_REG :: u32 where "D_REG = 0x10"

text \<open>
  Modelled from the spec: \<open>EINVAL\<close> (\<open>errno.h\<close>), \<open>BIT\<close> (\<open>linux/bitops.h\<close>) and
  \<open>CLK_SET_RATE_PARENT\<close> (\<open>linux/clk-provider.h\<close>) are not among the sources.
  \<open>EINVAL\<close> is 22. \<open>BIT(nr)\<close> is \<open>1UL << nr\<close>, an \<open>unsigned long\<close>, undefined when
  \<open>nr\<close> is not below the width of the type. \<open>CLK_SET_RATE_PARENT\<close> is the flag by
  which the caller permits a rate change to propagate to the parent, \<open>BIT(2)\<close>.
\<close>

definition EINVAL :: int where "EINVAL = 22"

definition BIT :: "nat \<Rightarrow> fault + ('l::len) word" where
  "BIT nr = (if nr < LENGTH('l) then Inr (push_bit nr 1) else Inl Bad_shift)"

definition CLK_SET_RATE_PARENT :: "('l::len) word" where
  "CLK_SET_RATE_PARENT = push_bit 2 1"

text \<open>
  \<open>msk = BIT(width) - 1\<close> with \<open>u32 msk\<close>: the \<open>unsigned long\<close> is cut to 32 bits.
  The first argument only names the width of \<open>unsigned long\<close>.
\<close>

definition width_mask :: "('l::len) itself \<Rightarrow> u8 \<Rightarrow> fault + u32" where
  "width_mask ul width =
     (case (BIT (unat width) :: fault + 'l word) of
        Inl e \<Rightarrow> Inl e
      | Inr b \<Rightarrow> Inr (ucast (b - 1)))"

section \<open>The driver\<close>

subsection \<open>\<open>clk_rcg2_is_enabled\<close>\<close>

definition clk_rcg2_is_enabled :: "('l::len) clk_rcg2 \<Rightarrow> world \<Rightarrow> int \<times> world" where
  "clk_rcg2_is_enabled rcg w =
     (case regmap_read w (cmd_rcgr rcg + CMD_REG) of
        (Inl ret, w1) \<Rightarrow> (ret, w1)
      | (Inr cmd, w1) \<Rightarrow> ((if cmd AND CMD_ROOT_OFF \<noteq> 0 then 1 else 0), w1))"

subsection \<open>\<open>clk_rcg2_get_parent\<close>\<close>

text \<open>
  The loop \<open>for (i = 0; i < num_parents; i++) if (cfg == rcg->parent_map[i]) return i\<close>.
  \<open>parent_map\<close> is a pointer to an array of \<open>u8\<close>, here the list of its elements.
\<close>

function parent_map_scan :: "u8 list \<Rightarrow> u32 \<Rightarrow> nat \<Rightarrow> nat \<Rightarrow> fault + nat option" where
  "parent_map_scan pm cfg num_parents i =
     (if i < num_parents then
        (if i < length pm then
           (if cfg = ucast (pm ! i) then Inr (Some i)
            else parent_map_scan pm cfg num_parents (Suc i))
         else Inl Out_of_bounds)
      else Inr None)"
  by pat_completeness auto
termination
  by (relation "measure (\<lambda>(pm, cfg, num_parents, i). num_parents - i)") auto

declare parent_map_scan.simps [simp del]

text \<open>
  The function returns \<open>u8\<close>: \<open>return ret\<close>, \<open>return i\<close> and \<open>return -EINVAL\<close> convert
  an \<open>int\<close> to it.
\<close>

definition clk_rcg2_get_parent :: "('l::len) clk_rcg2 \<Rightarrow> world \<Rightarrow> fault + (u8 \<times> world)" where
  "clk_rcg2_get_parent rcg w =
     (let num_parents = unat (clk_num_parents (hw_clk rcg)) in
      case regmap_read w (cmd_rcgr rcg + CFG_REG) of
        (Inl ret, w1) \<Rightarrow> Inr (word_of_int ret, w1)
      | (Inr cfg, w1) \<Rightarrow>
          (let cfg1 = cfg AND CFG_SRC_SEL_MASK;
               cfg2 = drop_bit CFG_SRC_SEL_SHIFT cfg1
           in case parent_map_scan (parent_map rcg) cfg2 num_parents 0 of
                Inl e \<Rightarrow> Inl e
              | Inr (Some i) \<Rightarrow> Inr (word_of_int (int i), w1)
              | Inr None \<Rightarrow> Inr (word_of_int (- EINVAL), w1)))"

subsection \<open>\<open>update_config\<close>\<close>

text \<open>
  The loop \<open>for (count = 500; count > 0; count--)\<close>: \<open>Some ret\<close> is a \<open>return ret\<close>
  inside the loop, \<open>None\<close> is the loop running out.
\<close>

fun update_config_poll :: "u32 \<Rightarrow> nat \<Rightarrow> world \<Rightarrow> int option \<times> world" where
  "update_config_poll reg 0 w = (None, w)"
| "update_config_poll reg (Suc count) w =
     (case regmap_read w reg of
        (Inl ret, w1) \<Rightarrow> (Some ret, w1)
      | (Inr cmd, w1) \<Rightarrow>
          (if cmd AND CMD_UPDATE = 0 then (Some 0, w1)
           else update_config_poll reg count (udelay 1 w1)))"

definition update_config :: "('l::len) clk_rcg2 \<Rightarrow> world \<Rightarrow> int \<times> world" where
  "update_config rcg w =
     (let name = clk_name (hw_clk rcg) in
      case regmap_update_bits w (cmd_rcgr rcg + CMD_REG) CMD_UPDATE CMD_UPDATE of
        (ret, w1) \<Rightarrow>
          (if ret \<noteq> 0 then (ret, w1)
           else case update_config_poll (cmd_rcgr rcg + CMD_REG) 500 w1 of
                  (Some ret', w2) \<Rightarrow> (ret', w2)
                | (None, w2) \<Rightarrow>
                    (0, WARN (name @ '': rcg didn't update its configuration.'') w2)))"

subsection \<open>\<open>clk_rcg2_set_parent\<close>\<close>

definition clk_rcg2_set_parent :: "('l::len) clk_rcg2 \<Rightarrow> u8 \<Rightarrow> world \<Rightarrow> fault + (int \<times> world)" where
  "clk_rcg2_set_parent rcg index w =
     (if unat index < length (parent_map rcg) then
        (case regmap_update_bits w (cmd_rcgr rcg + CFG_REG) CFG_SRC_SEL_MASK
                (push_bit CFG_SRC_SEL_SHIFT (ucast (parent_map rcg ! unat index))) of
           (ret, w1) \<Rightarrow> if ret \<noteq> 0 then Inr (ret, w1) else Inr (update_config rcg w1))
      else Inl Out_of_bounds)"

subsection \<open>\<open>calc_rate\<close> and \<open>clk_rcg2_recalc_rate\<close>\<close>

text \<open>
  \<open>rate *= 2; rate /= hid_div + 1\<close> is \<open>unsigned long\<close> arithmetic, the divisor an
  \<open>u32\<close> sum; \<open>u64 tmp = rate; tmp *= m; do_div(tmp, n); rate = tmp\<close> multiplies and
  divides in 64 bits and cuts the quotient back to \<open>unsigned long\<close>.
\<close>

definition calc_rate :: "('l::len) word \<Rightarrow> u32 \<Rightarrow> u32 \<Rightarrow> u32 \<Rightarrow> u32 \<Rightarrow> fault + 'l word" where
  "calc_rate rate m n mode hid_div =
     (case (if hid_div \<noteq> 0 then
              (if hid_div + 1 = 0 then Inl Div_by_zero
               else Inr ((rate * 2) div ucast (hid_div + 1)))
            else Inr rate) of
        Inl e \<Rightarrow> Inl e
      | Inr rate1 \<Rightarrow>
          (if mode \<noteq> 0 then
             (let tmp = (ucast rate1 :: u64);
                  tmp1 = tmp * ucast m
              in if n = 0 then Inl Div_by_zero
                 else Inr (ucast (tmp1 div ucast n)))
           else Inr rate1))"

text \<open>
  \<open>clk_rcg2_recalc_rate\<close> ignores the return codes of its reads: after a failed read
  \<open>m\<close> and \<open>n\<close> keep their initial 0, and \<open>cfg\<close> was never written.
\<close>

definition clk_rcg2_recalc_rate ::
  "('l::len) clk_rcg2 \<Rightarrow> 'l word \<Rightarrow> world \<Rightarrow> fault + ('l word \<times> world)" where
  "clk_rcg2_recalc_rate rcg parent_rate w =
     (case regmap_read w (cmd_rcgr rcg + CFG_REG) of
        (cfg_res, w1) \<Rightarrow>
          (case (if mnd_width rcg \<noteq> 0 then
                   (case width_mask TYPE('l) (mnd_width rcg) of
                      Inl e \<Rightarrow> Inl e
                    | Inr msk \<Rightarrow>
                        (case regmap_read w1 (cmd_rcgr rcg + M_REG) of
                           (m_res, w2) \<Rightarrow>
                             (case regmap_read w2 (cmd_rcgr rcg + N_REG) of
                                (n_res, w3) \<Rightarrow>
                                  (let m0 = (case m_res of Inl _ \<Rightarrow> 0 | Inr v \<Rightarrow> v);
                                       m1 = m0 AND msk;
                                       n0 = (case n_res of Inl _ \<Rightarrow> 0 | Inr v \<Rightarrow> v);
                                       n1 = NOT n0;
                                       n2 = n1 AND msk;
                                       n3 = n2 + m1
                                   in case cfg_res of
                                        Inl _ \<Rightarrow> Inl Uninitialised
                                      | Inr cfg \<Rightarrow>
                                          Inr (m1, n3,
                                               drop_bit CFG_MODE_SHIFT (cfg AND CFG_MODE_MASK),
                                               w3)))))
                 else Inr (0, 0, 0, w1)) of
             Inl e \<Rightarrow> Inl e
           | Inr (m, n, mode, w4) \<Rightarrow>
               (case width_mask TYPE('l) (hid_width rcg) of
                  Inl e \<Rightarrow> Inl e
                | Inr msk \<Rightarrow>
                    (case cfg_res of
                       Inl _ \<Rightarrow> Inl Uninitialised
                     | Inr cfg \<Rightarrow>
                         (let hid_div = drop_bit CFG_SRC_DIV_SHIFT cfg AND msk
                          in case calc_rate parent_rate m n mode hid_div of
                               Inl e \<Rightarrow> Inl e
                             | Inr rate \<Rightarrow> Inr (rate, w4))))))"

subsection \<open>\<open>_freq_tbl_determine_rate\<close> and \<open>clk_rcg2_determine_rate\<close>\<close>

text \<open>
  The function returns a \<open>long\<close>, here the \<open>unsigned long\<close> of the same bits (\<open>sint\<close>
  reads it), and writes \<open>*p_rate\<close> and \<open>*p\<close>: it takes what they hold and returns
  what they hold afterwards. \<open>f->pre_div + 1\<close> is an \<open>int\<close> sum of an \<open>u8\<close>, which
  does not wrap.
\<close>

definition freq_tbl_determine_rate ::
  "('l::len) clk_rcg2 \<Rightarrow> 'l freq_tbl list option \<Rightarrow> 'l word \<Rightarrow> 'l word \<Rightarrow> nat option \<Rightarrow>
     fault + ('l word \<times> 'l word \<times> nat option)" where
  "freq_tbl_determine_rate rcg f rate p_rate p =
     (case find_freq f rate of
        Inl e \<Rightarrow> Inl e
      | Inr None \<Rightarrow> Inr (word_of_int (- EINVAL), p_rate, p)
      | Inr (Some (i, fe)) \<Rightarrow>
          (let clk_flags = clk_flags (hw_clk rcg);
               p1 = clk_parent_by_index (hw_clk rcg) (src fe)
           in if clk_flags AND CLK_SET_RATE_PARENT \<noteq> 0 then
                (let rate1 = (if pre_div fe \<noteq> 0
                              then (rate div 2) * (ucast (pre_div fe) + 1)
                              else rate)
                 in if tbl_n fe \<noteq> 0 then
                      (let tmp = (ucast rate1 :: u64);
                           tmp1 = tmp * ucast (tbl_n fe)
                       in if tbl_m fe = 0 then Inl Div_by_zero
                          else Inr (freq fe, ucast (tmp1 div ucast (tbl_m fe)), p1))
                    else Inr (freq fe, rate1, p1))
              else Inr (freq fe, clk_rate (hw_clk rcg) p1, p1)))"

definition clk_rcg2_determine_rate ::
  "('l::len) clk_rcg2 \<Rightarrow> 'l word \<Rightarrow> 'l word \<Rightarrow> nat option \<Rightarrow>
     fault + ('l word \<times> 'l word \<times> nat option)" where
  "clk_rcg2_determine_rate rcg rate p_rate p =
     freq_tbl_determine_rate rcg (freq_tbl rcg) rate p_rate p"

subsection \<open>\<open>__clk_rcg2_set_rate\<close> and its two callers\<close>

text \<open>
  \<open>__clk_rcg2_set_rate\<close> is \<open>do_clk_rcg2_set_rate\<close> here (a name cannot begin with an
  underscore). \<open>f->n - f->m\<close> is an \<open>int\<close> difference of two \<open>u16\<close>; complemented
  and passed as \<open>unsigned int\<close> it is the 32-bit complement of the 32-bit difference.
\<close>

definition set_rate_mnd :: "('l::len) clk_rcg2 \<Rightarrow> 'l freq_tbl \<Rightarrow> u32 \<Rightarrow> world \<Rightarrow> int \<times> world" where
  "set_rate_mnd rcg fe msk w =
     (case regmap_update_bits w (cmd_rcgr rcg + M_REG) msk (ucast (tbl_m fe)) of
        (ret, w1) \<Rightarrow>
          if ret \<noteq> 0 then (ret, w1)
          else (case regmap_update_bits w1 (cmd_rcgr rcg + N_REG) msk
                       (NOT (ucast (tbl_n fe) - ucast (tbl_m fe))) of
                  (ret, w2) \<Rightarrow>
                    if ret \<noteq> 0 then (ret, w2)
                    else regmap_update_bits w2 (cmd_rcgr rcg + D_REG) msk
                           (NOT (ucast (tbl_n fe)))))"

definition set_rate_cfg :: "('l::len) clk_rcg2 \<Rightarrow> 'l freq_tbl \<Rightarrow> world \<Rightarrow> fault + (int \<times> world)" where
  "set_rate_cfg rcg fe w =
     (case width_mask TYPE('l) (hid_width rcg) of
        Inl e \<Rightarrow> Inl e
      | Inr msk0 \<Rightarrow>
          (let msk = msk0 OR (CFG_SRC_SEL_MASK OR CFG_MODE_MASK);
               cfg0 = push_bit CFG_SRC_DIV_SHIFT (ucast (pre_div fe))
           in if unat (src fe) < length (parent_map rcg) then
                (let cfg1 = cfg0 OR push_bit CFG_SRC_SEL_SHIFT (ucast (parent_map rcg ! unat (src fe)));
                     cfg2 = (if mnd_width rcg \<noteq> 0 \<and> tbl_n fe \<noteq> 0
                             then cfg1 OR CFG_MODE_DUAL_EDGE else cfg1)
                 in case regmap_update_bits w (cmd_rcgr rcg + CFG_REG) msk cfg2 of
                      (ret, w1) \<Rightarrow>
                        if ret \<noteq> 0 then Inr (ret, w1) else Inr (update_config rcg w1))
              else Inl Out_of_bounds))"

definition do_clk_rcg2_set_rate :: "('l::len) clk_rcg2 \<Rightarrow> 'l word \<Rightarrow> world \<Rightarrow> fault + (int \<times> world)" where
  "do_clk_rcg2_set_rate rcg rate w =
     (case find_freq (freq_tbl rcg) rate of
        Inl e \<Rightarrow> Inl e
      | Inr None \<Rightarrow> Inr (- EINVAL, w)
      | Inr (Some (i, fe)) \<Rightarrow>
          (if mnd_width rcg \<noteq> 0 \<and> tbl_n fe \<noteq> 0 then
             (case width_mask TYPE('l) (mnd_width rcg) of
                Inl e \<Rightarrow> Inl e
              | Inr msk \<Rightarrow>
                  (case set_rate_mnd rcg fe msk w of
                     (ret, w1) \<Rightarrow>
                       if ret \<noteq> 0 then Inr (ret, w1) else set_rate_cfg rcg fe w1))
           else set_rate_cfg rcg fe w))"

definition clk_rcg2_set_rate ::
  "('l::len) clk_rcg2 \<Rightarrow> 'l word \<Rightarrow> 'l word \<Rightarrow> world \<Rightarrow> fault + (int \<times> world)" where
  "clk_rcg2_set_rate rcg rate parent_rate w = do_clk_rcg2_set_rate rcg rate w"

definition clk_rcg2_set_rate_and_parent ::
  "('l::len) clk_rcg2 \<Rightarrow> 'l word \<Rightarrow> 'l word \<Rightarrow> u8 \<Rightarrow> world \<Rightarrow> fault + (int \<times> world)" where
  "clk_rcg2_set_rate_and_parent rcg rate parent_rate index w = do_clk_rcg2_set_rate rcg rate w"

section \<open>Example devices\<close>

text \<open>
  Concrete tables, descriptors and hardware, for 32-bit \<open>unsigned long\<close>. \<open>tbl_xo\<close>
  is the table of the spec's scenarios, a single 19.2 MHz record and the terminating
  one. \<open>ex_world\<close> is hardware that latches a configuration at once: it clears the
  update bit before every access. \<open>stuck_world\<close> is hardware that never does.
\<close>

definition tbl_xo :: "32 freq_tbl list" where
  "tbl_xo = [\<lparr>freq = 19200000, src = 0, pre_div = 0, tbl_m = 0, tbl_n = 0\<rparr>,
             \<lparr>freq = 0, src = 0, pre_div = 0, tbl_m = 0, tbl_n = 0\<rparr>]"

definition ex_tbl :: "32 freq_tbl list" where
  "ex_tbl = [\<lparr>freq = 19200000, src = 0, pre_div = 0, tbl_m = 0, tbl_n = 0\<rparr>,
             \<lparr>freq = 100000000, src = 1, pre_div = 3, tbl_m = 1, tbl_n = 2\<rparr>,
             \<lparr>freq = 0, src = 0, pre_div = 0, tbl_m = 0, tbl_n = 0\<rparr>]"

definition ex_clk :: "32 clk" where
  "ex_clk = \<lparr>clk_name = ''gp1_clk_src'', clk_num_parents = 3, clk_flags = 0,
             clk_parent_by_index = (\<lambda>i. if i < 3 then Some (unat i) else None),
             clk_rate = (\<lambda>p. case p of None \<Rightarrow> 0
                                | Some k \<Rightarrow> if k = 0 then 19200000 else 800000000)\<rparr>"

definition ex_rcg :: "32 clk_rcg2" where
  "ex_rcg = \<lparr>cmd_rcgr = 0x1904, mnd_width = 8, hid_width = 5, parent_map = [0, 1, 2],
             freq_tbl = Some ex_tbl, hw_clk = ex_clk\<rparr>"

definition ex_world :: world where
  "ex_world = \<lparr>regs = (\<lambda>r. 0), clock = 0, bus = (\<lambda>i. 0),
               async = (\<lambda>i r. r(0x1904 := r 0x1904 AND NOT 1)), trace = []\<rparr>"

definition stuck_world :: world where
  "stuck_world = \<lparr>regs = (\<lambda>r. 0), clock = 0, bus = (\<lambda>i. 0),
                  async = (\<lambda>i r. r), trace = []\<rparr>"

text \<open>Hardware whose root is off, and a descriptor with the table of the spec's scenarios.\<close>

definition root_off_world :: world where
  "root_off_world = \<lparr>regs = (\<lambda>r. if r = 0x1904 then 0x80000000 else 0), clock = 0,
                     bus = (\<lambda>i. 0), async = (\<lambda>i r. r), trace = []\<rparr>"

definition xo_rcg :: "32 clk_rcg2" where
  "xo_rcg = ex_rcg\<lparr>freq_tbl := Some tbl_xo\<rparr>"

text \<open>A clock of 235 parents, none of which the select field can name.\<close>

definition many_rcg :: "32 clk_rcg2" where
  "many_rcg = ex_rcg\<lparr>parent_map := replicate 235 9, hw_clk := ex_clk\<lparr>clk_num_parents := 235\<rparr>\<rparr>"

text \<open>A bus on which access number \<open>k\<close> fails with \<open>-EIO\<close>.\<close>

definition bus_fails_at :: "nat \<Rightarrow> world" where
  "bus_fails_at k = ex_world\<lparr>bus := (\<lambda>i. if i = k then - 5 else 0)\<rparr>"

text \<open>
  A table record whose pre-divider needs six bits, on a divider field of five, and a
  parent map whose second entry needs five bits, on a select field of three.
\<close>

definition tbl_wide :: "32 freq_tbl list" where
  "tbl_wide = [\<lparr>freq = 100000000, src = 1, pre_div = 33, tbl_m = 0, tbl_n = 0\<rparr>,
               \<lparr>freq = 0, src = 0, pre_div = 0, tbl_m = 0, tbl_n = 0\<rparr>]"

definition wide_rcg :: "32 clk_rcg2" where
  "wide_rcg = ex_rcg\<lparr>parent_map := [0, 0x1f, 2], freq_tbl := Some tbl_wide\<rparr>"

text \<open>A clock whose flags permit a rate change to propagate to the parent.\<close>

definition prop_clk :: "32 clk" where
  "prop_clk = ex_clk\<lparr>clk_flags := 4\<rparr>"

definition prop_rcg :: "32 clk_rcg2" where
  "prop_rcg = ex_rcg\<lparr>hw_clk := prop_clk\<rparr>"

text \<open>The example descriptor with a divider field of nine bits, which reaches into the select field.\<close>

definition nine_rcg :: "32 clk_rcg2" where
  "nine_rcg = ex_rcg\<lparr>hid_width := 9\<rparr>"

text \<open>
  A table of frequencies in the upper half of a 32-bit \<open>unsigned long\<close>, and a table
  whose record asks for a fraction with \<open>m = 0\<close>.
\<close>

definition tbl_high :: "32 freq_tbl list" where
  "tbl_high = [\<lparr>freq = 3200000000, src = 0, pre_div = 0, tbl_m = 1, tbl_n = 2\<rparr>,
               \<lparr>freq = 4000000000, src = 1, pre_div = 5, tbl_m = 0, tbl_n = 0\<rparr>,
               \<lparr>freq = 4294967274, src = 2, pre_div = 0, tbl_m = 0, tbl_n = 0\<rparr>,
               \<lparr>freq = 0, src = 0, pre_div = 0, tbl_m = 0, tbl_n = 0\<rparr>]"

definition tbl_m0 :: "32 freq_tbl list" where
  "tbl_m0 = [\<lparr>freq = 19200000, src = 0, pre_div = 0, tbl_m = 0, tbl_n = 2\<rparr>,
             \<lparr>freq = 0, src = 0, pre_div = 0, tbl_m = 0, tbl_n = 0\<rparr>]"

section \<open>Observing a run\<close>

text \<open>
  The reads and the diagnostics in a world's trace, and what a register would return
  on the \<open>j\<close>-th of a row of reads that start in a world: between reads that nothing
  but delays separate, the registers change by the hardware's own activity only.
\<close>

fun is_read :: "event \<Rightarrow> bool" where
  "is_read (Ev_read reg res) = True"
| "is_read ev = False"

fun is_warn :: "event \<Rightarrow> bool" where
  "is_warn (Ev_warn msg) = True"
| "is_warn ev = False"

definition reads_in :: "world \<Rightarrow> nat" where
  "reads_in w = length (filter is_read (trace w))"

definition warns_in :: "world \<Rightarrow> nat" where
  "warns_in w = length (filter is_warn (trace w))"

definition seen :: "world \<Rightarrow> u32 \<Rightarrow> nat \<Rightarrow> int + u32" where
  "seen w reg j = fst (regmap_read ((hw_tick ^^ j) w) reg)"

definition update_set :: "int + u32 \<Rightarrow> bool" where
  "update_set res = (case res of Inl ret \<Rightarrow> False | Inr cmd \<Rightarrow> cmd AND CMD_UPDATE \<noteq> 0)"

definition update_clear :: "int + u32 \<Rightarrow> bool" where
  "update_clear res = (case res of Inl ret \<Rightarrow> False | Inr cmd \<Rightarrow> cmd AND CMD_UPDATE = 0)"

text \<open>
  The three writes of the M/N:D counter, as the trace records them: register, mask,
  value and return code.
\<close>

definition ev_m :: "('l::len) clk_rcg2 \<Rightarrow> 'l freq_tbl \<Rightarrow> int \<Rightarrow> event" where
  "ev_m rcg fe ret =
     Ev_update (cmd_rcgr rcg + M_REG) (mask (unat (mnd_width rcg))) (ucast (tbl_m fe)) ret"

definition ev_n :: "('l::len) clk_rcg2 \<Rightarrow> 'l freq_tbl \<Rightarrow> int \<Rightarrow> event" where
  "ev_n rcg fe ret =
     Ev_update (cmd_rcgr rcg + N_REG) (mask (unat (mnd_width rcg)))
       (NOT (ucast (tbl_n fe) - ucast (tbl_m fe))) ret"

definition ev_d :: "('l::len) clk_rcg2 \<Rightarrow> 'l freq_tbl \<Rightarrow> int \<Rightarrow> event" where
  "ev_d rcg fe ret =
     Ev_update (cmd_rcgr rcg + D_REG) (mask (unat (mnd_width rcg))) (NOT (ucast (tbl_n fe))) ret"

text \<open>The hardware never changes register \<open>reg\<close> by itself.\<close>

definition untouched :: "world \<Rightarrow> u32 \<Rightarrow> bool" where
  "untouched w reg = (\<forall>i r. async w i r reg = r reg)"

section \<open>The rate arithmetic in the spec's words\<close>

text \<open>
  The spec's \<open>compute_achieved_rate\<close> (section 4.2), over the natural numbers: if
  \<open>preDivider\<close> is nonzero, \<open>rate = parentRate * 2 / (preDivider + 1)\<close>; if dual-edge
  mode is active, \<open>rate = rate * m / n\<close>; both divisions round down. It is what the
  code's \<open>calc_rate\<close> is compared with.
\<close>

definition pre_divided :: "nat \<Rightarrow> nat \<Rightarrow> nat" where
  "pre_divided parentRate preDivider =
     (if preDivider \<noteq> 0 then parentRate * 2 div (preDivider + 1) else parentRate)"

definition compute_achieved_rate :: "nat \<Rightarrow> nat \<Rightarrow> nat \<Rightarrow> bool \<Rightarrow> nat \<Rightarrow> nat" where
  "compute_achieved_rate parentRate m n dualEdgeModeActive preDivider =
     (let rate = pre_divided parentRate preDivider
      in if dualEdgeModeActive then rate * m div n else rate)"

text \<open>
  The spec's inversion of that scaling in \<open>determine_candidate_rate\<close> (section 4.2),
  over the natural numbers: if \<open>preDivider\<close> is nonzero, \<open>rate /= 2\<close> then
  \<open>rate *= preDivider + 1\<close>; then \<open>rate = rate * n / m\<close> if \<open>n\<close> is nonzero. It is
  what the parent rate reported by \<open>_freq_tbl_determine_rate\<close> is compared with.
\<close>

definition pre_scaled :: "nat \<Rightarrow> nat \<Rightarrow> nat" where
  "pre_scaled requestedRate preDivider =
     (if preDivider \<noteq> 0 then requestedRate div 2 * (preDivider + 1) else requestedRate)"

definition parent_rate_to_request :: "nat \<Rightarrow> nat \<Rightarrow> nat \<Rightarrow> nat \<Rightarrow> nat" where
  "parent_rate_to_request requestedRate preDivider m n =
     (let rate = pre_scaled requestedRate preDivider
      in if n \<noteq> 0 then rate * n div m else rate)"

section \<open>Table lookup\<close>

lemma find_freq_from_Some:
  "find_freq_from tbl k rate = Inr (Some (i, fe)) \<Longrightarrow>
     \<exists>d. i = k + d \<and> d < length tbl \<and> tbl ! d = fe \<and> rate \<le> freq fe \<and> freq fe \<noteq> 0 \<and>
         (\<forall>j. j < d \<longrightarrow> freq (tbl ! j) < rate \<and> freq (tbl ! j) \<noteq> 0)"
proof (induction tbl arbitrary: k)
  case Nil
  then show ?case by simp
next
  case (Cons e es)
  show ?case
  proof (cases "freq e = 0 \<or> rate \<le> freq e")
    case True
    with Cons.prems have "i = k + 0 \<and> 0 < length (e # es) \<and> (e # es) ! 0 = fe \<and>
        rate \<le> freq fe \<and> freq fe \<noteq> 0"
      by (auto split: if_splits)
    then show ?thesis by blast
  next
    case False
    with Cons.prems have rec: "find_freq_from es (Suc k) rate = Inr (Some (i, fe))" by simp
    from Cons.IH [OF rec] obtain d where d:
      "i = Suc k + d" "d < length es" "es ! d = fe" "rate \<le> freq fe" "freq fe \<noteq> 0"
      "\<forall>j. j < d \<longrightarrow> freq (es ! j) < rate \<and> freq (es ! j) \<noteq> 0"
      by blast
    have before: "freq ((e # es) ! j) < rate \<and> freq ((e # es) ! j) \<noteq> 0" if "j < Suc d" for j
    proof (cases j)
      case 0
      with False show ?thesis by auto
    next
      case (Suc j')
      with that have "j' < d" by simp
      with d(6) Suc show ?thesis by simp
    qed
    have "i = k + Suc d \<and> Suc d < length (e # es) \<and> (e # es) ! Suc d = fe \<and>
        rate \<le> freq fe \<and> freq fe \<noteq> 0"
      using d by simp
    with before show ?thesis by blast
  qed
qed

lemma find_freq_from_None:
  "terminated tbl \<Longrightarrow> \<forall>e \<in> set (entries tbl). freq e < rate \<Longrightarrow>
     find_freq_from tbl k rate = Inr None"
  by (induction tbl arbitrary: k) (auto simp: terminated_def entries_def)

lemma find_freq_from_total:
  "terminated tbl \<Longrightarrow> \<exists>r. find_freq_from tbl k rate = Inr r"
  by (induction tbl arbitrary: k) (auto simp: terminated_def)

lemma find_freq_Some:
  "find_freq f rate = Inr (Some (i, fe)) \<Longrightarrow>
     \<exists>tbl. f = Some tbl \<and> i < length tbl \<and> fe = tbl ! i \<and> rate \<le> freq fe \<and> freq fe \<noteq> 0 \<and>
           (\<forall>j. j < i \<longrightarrow> freq (tbl ! j) < rate \<and> freq (tbl ! j) \<noteq> 0)"
proof -
  assume a: "find_freq f rate = Inr (Some (i, fe))"
  then obtain tbl where f: "f = Some tbl" and r: "find_freq_from tbl 0 rate = Inr (Some (i, fe))"
    by (auto simp: find_freq_def split: option.splits)
  from find_freq_from_Some [OF r] obtain d where
    "i = 0 + d" "d < length tbl" "tbl ! d = fe" "rate \<le> freq fe" "freq fe \<noteq> 0"
    "\<forall>j. j < d \<longrightarrow> freq (tbl ! j) < rate \<and> freq (tbl ! j) \<noteq> 0"
    by blast
  with f show ?thesis by auto
qed

lemma find_freq_from_first:
  "k < length (entries tbl) \<Longrightarrow> rate \<le> freq (tbl ! k) \<Longrightarrow>
     \<forall>j. j < k \<longrightarrow> freq (tbl ! j) < rate \<Longrightarrow>
     find_freq_from tbl i rate = Inr (Some (i + k, tbl ! k))"
proof (induction tbl arbitrary: i k)
  case Nil
  then show ?case by (simp add: entries_def)
next
  case (Cons e es)
  from Cons.prems(1) have nz: "freq e \<noteq> 0"
    by (auto simp: entries_def split: if_splits)
  show ?case
  proof (cases k)
    case 0
    with Cons.prems(2) nz show ?thesis by simp
  next
    case (Suc k')
    with Cons.prems(3) have lt: "freq e < rate" by auto
    from Cons.prems(1) nz Suc have a: "k' < length (entries es)"
      by (simp add: entries_def)
    from Cons.prems(2) Suc have b: "rate \<le> freq (es ! k')" by simp
    from Cons.prems(3) Suc have c: "\<forall>j. j < k' \<longrightarrow> freq (es ! j) < rate" by auto
    from Cons.IH [OF a b c, of "Suc i"] nz lt Suc show ?thesis
      by (simp add: not_le)
  qed
qed

text \<open>
  C1. \<open>find_freq\<close> returns the first record whose frequency is at least the requested
  rate. If it returns a record, the table is present, the record's frequency is at least
  the requested rate and is not 0 (the terminating record is never returned), and every
  record before it has a frequency below the requested rate. Conversely, if record \<open>k\<close>
  stands before the terminating record, has a frequency of at least the requested rate
  and every record before it has a frequency below it, then record \<open>k\<close> is what
  \<open>find_freq\<close> returns. On an absent table, and on a terminated table all of whose
  records before the terminating one have a frequency below the requested rate (an empty
  table among them), it returns NULL. On a terminated table the scan never leaves the
  array.
\<close>

theorem find_freq_first_match:
  fixes f :: "('l::len) freq_tbl list option"
  shows "(find_freq f rate = Inr (Some (i, fe)) \<longrightarrow>
            (\<exists>tbl. f = Some tbl \<and> i < length tbl \<and> fe = tbl ! i \<and> rate \<le> freq fe \<and>
                   freq fe \<noteq> 0 \<and> (\<forall>j. j < i \<longrightarrow> freq (tbl ! j) < rate)))
       \<and> (\<forall>tbl k. f = Some tbl \<and> k < length (entries tbl) \<and> rate \<le> freq (tbl ! k) \<and>
                   (\<forall>j. j < k \<longrightarrow> freq (tbl ! j) < rate)
            \<longrightarrow> find_freq f rate = Inr (Some (k, tbl ! k)))
       \<and> (f = None \<longrightarrow> find_freq f rate = Inr None)
       \<and> (\<forall>tbl. f = Some tbl \<and> terminated tbl \<and> (\<forall>e \<in> set (entries tbl). freq e < rate)
            \<longrightarrow> find_freq f rate = Inr None)
       \<and> (\<forall>tbl. f = Some tbl \<and> terminated tbl \<longrightarrow> (\<exists>r. find_freq f rate = Inr r))"
proof (intro conjI impI allI)
  assume "find_freq f rate = Inr (Some (i, fe))"
  from find_freq_Some [OF this]
  show "\<exists>tbl. f = Some tbl \<and> i < length tbl \<and> fe = tbl ! i \<and> rate \<le> freq fe \<and>
          freq fe \<noteq> 0 \<and> (\<forall>j. j < i \<longrightarrow> freq (tbl ! j) < rate)"
    by blast
next
  fix tbl k
  assume h: "f = Some tbl \<and> k < length (entries tbl) \<and> rate \<le> freq (tbl ! k) \<and>
             (\<forall>j. j < k \<longrightarrow> freq (tbl ! j) < rate)"
  then have "find_freq_from tbl 0 rate = Inr (Some (0 + k, tbl ! k))"
    by (intro find_freq_from_first) simp_all
  with h show "find_freq f rate = Inr (Some (k, tbl ! k))"
    by (simp add: find_freq_def)
next
  assume "f = None"
  then show "find_freq f rate = Inr None" by (simp add: find_freq_def)
next
  fix tbl
  assume "f = Some tbl \<and> terminated tbl \<and> (\<forall>e \<in> set (entries tbl). freq e < rate)"
  then show "find_freq f rate = Inr None"
    by (simp add: find_freq_def find_freq_from_None)
next
  fix tbl
  assume "f = Some tbl \<and> terminated tbl"
  then show "\<exists>r. find_freq f rate = Inr r"
    using find_freq_from_total [of tbl 0 rate] by (simp add: find_freq_def)
qed

theorem find_freq_first_match_witness:
  "find_freq (Some ex_tbl) 50000000 = Inr (Some (1, ex_tbl ! 1))
   \<and> (50000000 :: 32 word) \<le> freq (ex_tbl ! 1) \<and> freq (ex_tbl ! 0) < 50000000
   \<and> find_freq (Some tbl_xo) 10000000 = Inr (Some (0, tbl_xo ! 0))
   \<and> find_freq (None :: 32 freq_tbl list option) 10000000 = Inr None
   \<and> terminated tbl_xo \<and> list_all (\<lambda>e. freq e < 50000000) (entries tbl_xo)
   \<and> find_freq (Some tbl_xo) 50000000 = Inr None"
proof -
  note t1 = find_freq_first_match [of "Some ex_tbl" "50000000 :: 32 word"]
  have h1: "Some ex_tbl = Some ex_tbl \<and> 1 < length (entries ex_tbl) \<and>
      (50000000 :: 32 word) \<le> freq (ex_tbl ! 1) \<and>
      (\<forall>j. j < 1 \<longrightarrow> freq (ex_tbl ! j) < 50000000)"
    by (simp add: entries_def ex_tbl_def)
  from t1 [THEN conjunct2, THEN conjunct1, THEN spec, THEN spec, THEN mp, OF h1]
  have found: "find_freq (Some ex_tbl) 50000000 = Inr (Some (1, ex_tbl ! 1))" .
  from t1 [THEN conjunct1, THEN mp, OF found]
  have a: "(50000000 :: 32 word) \<le> freq (ex_tbl ! 1) \<and> freq (ex_tbl ! 0) < 50000000"
    by auto
  note t2 = find_freq_first_match [of "Some tbl_xo" "10000000 :: 32 word"]
  have h2: "Some tbl_xo = Some tbl_xo \<and> 0 < length (entries tbl_xo) \<and>
      (10000000 :: 32 word) \<le> freq (tbl_xo ! 0) \<and>
      (\<forall>j. j < 0 \<longrightarrow> freq (tbl_xo ! j) < 10000000)"
    by (simp add: entries_def tbl_xo_def)
  from t2 [THEN conjunct2, THEN conjunct1, THEN spec, THEN spec, THEN mp, OF h2]
  have b: "find_freq (Some tbl_xo) 10000000 = Inr (Some (0, tbl_xo ! 0))" .
  from find_freq_first_match [of "None :: 32 freq_tbl list option" 10000000]
  have c: "find_freq (None :: 32 freq_tbl list option) 10000000 = Inr None"
    by simp
  have tmd: "terminated tbl_xo"
    by (simp add: terminated_def tbl_xo_def)
  have below: "\<forall>e \<in> set (entries tbl_xo). freq e < 50000000"
    by (simp add: entries_def tbl_xo_def)
  from tmd below find_freq_first_match [of "Some tbl_xo" 50000000]
  have d: "find_freq (Some tbl_xo) 50000000 = Inr None"
    by blast
  from below have "list_all (\<lambda>e. freq e < 50000000) (entries tbl_xo)"
    by (simp add: list_all_iff)
  with found a b c tmd d show ?thesis by simp
qed

section \<open>Rate arithmetic\<close>

lemma unat_bound: "unat (x :: 'a::len word) < 2 ^ LENGTH('a)"
  by (rule unsigned_less)

lemma unat_ucast_mod: "unat (ucast (x :: 'a::len word) :: 'b::len word) = unat x mod 2 ^ LENGTH('b)"
  by (simp add: unsigned_ucast_eq take_bit_eq_mod)

lemma unat_ucast_up:
  "LENGTH('a::len) \<le> LENGTH('b::len) \<Longrightarrow> unat (ucast (x :: 'a word) :: 'b word) = unat x"
proof -
  assume L: "LENGTH('a) \<le> LENGTH('b)"
  have "unat x < 2 ^ LENGTH('a)" by (rule unat_bound)
  also have "(2::nat) ^ LENGTH('a) \<le> 2 ^ LENGTH('b)" using L by (rule power_increasing) simp
  finally show ?thesis by (simp add: unat_ucast_mod)
qed

lemma unat_Suc_word: "(x :: 'a::len word) + 1 \<noteq> 0 \<Longrightarrow> unat (x + 1) = unat x + 1"
  using unatSuc [of x] by (simp add: add.commute)

lemma calc_rate_stage1:
  fixes rate :: "'l::len word"
  assumes "32 \<le> LENGTH('l)" "hid_div + 1 \<noteq> 0"
  shows "unat ((rate * 2) div ucast (hid_div + 1 :: u32))
           = (unat rate * 2 mod 2 ^ LENGTH('l)) div (unat hid_div + 1)"
proof -
  have "unat (ucast (hid_div + 1) :: 'l word) = unat hid_div + 1"
    using assms by (simp add: unat_ucast_up unat_Suc_word)
  then show ?thesis
    by (simp add: unat_div unat_word_ariths)
qed

lemma calc_rate_stage2:
  fixes rate1 :: "'l::len word"
  assumes "LENGTH('l) \<le> 64"
  shows "unat (ucast (((ucast rate1 :: u64) * ucast m) div ucast n) :: 'l word)
       = (unat rate1 * unat (m::u32) mod 2 ^ 64) div unat (n::u32) mod 2 ^ LENGTH('l)"
proof -
  have a: "unat (ucast rate1 :: u64) = unat rate1"
    using assms by (simp add: unat_ucast_up)
  have b: "unat (ucast m :: u64) = unat m" "unat (ucast n :: u64) = unat n"
    by (simp_all add: unat_ucast_up)
  have "unat ((ucast rate1 :: u64) * ucast m) = unat rate1 * unat m mod 2 ^ 64"
    by (simp add: unat_word_ariths a b)
  then have "unat (((ucast rate1 :: u64) * ucast m) div ucast n)
               = (unat rate1 * unat m mod 2 ^ 64) div unat n"
    by (simp only: unat_div b)
  then show ?thesis
    by (simp only: unat_ucast_mod)
qed

lemma calc_rate_unat:
  fixes rate :: "'l::len word"
  assumes L: "32 \<le> LENGTH('l)" "LENGTH('l) \<le> 64"
      and h: "hid_div + 1 \<noteq> 0" "mode \<noteq> 0 \<longrightarrow> n \<noteq> 0"
  shows "\<exists>r. calc_rate rate m n mode hid_div = Inr r \<and>
                unat r =
                  (let rate1 = (if hid_div \<noteq> 0
                                then (unat rate * 2 mod 2 ^ LENGTH('l)) div (unat hid_div + 1)
                                else unat rate)
                   in if mode \<noteq> 0
                      then (rate1 * unat m mod 2 ^ 64) div unat n mod 2 ^ LENGTH('l)
                      else rate1)"
  using h L
  by (auto simp: calc_rate_def Let_def calc_rate_stage1 calc_rate_stage2)

lemma calc_rate_exact:
  fixes rate :: "'l::len word"
  assumes L: "32 \<le> LENGTH('l)" "LENGTH('l) \<le> 64"
      and h: "hid_div + 1 \<noteq> 0" "mode \<noteq> 0 \<longrightarrow> n \<noteq> 0"
      and o1: "hid_div \<noteq> 0 \<longrightarrow> unat rate * 2 < 2 ^ LENGTH('l)"
      and o2: "mode \<noteq> 0 \<longrightarrow> pre_divided (unat rate) (unat hid_div) * unat m < 2 ^ 64"
      and o3: "compute_achieved_rate (unat rate) (unat m) (unat n) (mode \<noteq> 0) (unat hid_div)
                 < 2 ^ LENGTH('l)"
  shows "\<exists>r. calc_rate rate m n mode hid_div = Inr r \<and>
             unat r = compute_achieved_rate (unat rate) (unat m) (unat n) (mode \<noteq> 0) (unat hid_div)"
proof -
  let ?w1 = "(if hid_div \<noteq> 0
              then (unat rate * 2 mod 2 ^ LENGTH('l)) div (unat hid_div + 1)
              else unat rate)"
  from calc_rate_unat [OF L h, of rate m] obtain r where
    r: "calc_rate rate m n mode hid_div = Inr r" and
    u: "unat r = (if mode \<noteq> 0
                  then (?w1 * unat m mod 2 ^ 64) div unat n mod 2 ^ LENGTH('l)
                  else ?w1)"
    by (auto simp: Let_def)
  have z: "(unat hid_div = 0) = (hid_div = 0)"
    by (simp add: unat_eq_0)
  have s1: "?w1 = pre_divided (unat rate) (unat hid_div)"
    using o1 by (cases "hid_div = 0") (simp_all add: pre_divided_def z)
  have "unat r = compute_achieved_rate (unat rate) (unat m) (unat n) (mode \<noteq> 0) (unat hid_div)"
  proof (cases "mode \<noteq> 0")
    case True
    with o2 have a: "pre_divided (unat rate) (unat hid_div) * unat m mod 2 ^ 64
        = pre_divided (unat rate) (unat hid_div) * unat m" by simp
    from True o3 have b: "pre_divided (unat rate) (unat hid_div) * unat m div unat n
        < 2 ^ LENGTH('l)"
      by (simp add: compute_achieved_rate_def Let_def)
    from u [unfolded s1] True
    have "unat r = (pre_divided (unat rate) (unat hid_div) * unat m mod 2 ^ 64)
        div unat n mod 2 ^ LENGTH('l)"
      by simp
    with a b True show ?thesis
      by (simp add: compute_achieved_rate_def Let_def)
  next
    case False
    with u [unfolded s1] have "unat r = pre_divided (unat rate) (unat hid_div)" by simp
    with False show ?thesis
      by (simp add: compute_achieved_rate_def Let_def)
  qed
  with r show ?thesis by blast
qed

text \<open>
  C2, as amended. Let the divisors of the code be nonzero (\<open>hid_div + 1\<close> does not wrap
  to 0 in 32 bits, and \<open>n\<close> is nonzero when \<open>mode\<close> is). If moreover nothing overflows
  (the doubled parent rate fits \<open>unsigned long\<close>, the product with \<open>m\<close> fits 64 bits
  and the result fits \<open>unsigned long\<close>), \<open>calc_rate\<close> returns the spec's
  \<open>compute_achieved_rate\<close>: the parent rate times 2 divided by \<open>hid_div + 1\<close> when
  \<open>hid_div\<close> is nonzero, then times \<open>m\<close> divided by \<open>n\<close> when \<open>mode\<close> is nonzero, both
  rounding down. In general it returns the same with the doubling taken modulo the
  width of \<open>unsigned long\<close>, the product modulo \<open>2^64\<close> and the quotient stored as
  \<open>unsigned long\<close>. With \<open>hid_div = 0\<close> and \<open>mode = 0\<close> the result is the parent rate
  itself, and \<open>calc_rate(800000000, 1, 2, 2, 3) = 200000000\<close>.
\<close>

theorem calc_rate_computes:
  fixes rate :: "'l::len word"
  assumes L: "32 \<le> LENGTH('l)" "LENGTH('l) \<le> 64"
  shows "(hid_div + 1 \<noteq> 0 \<and> (mode \<noteq> 0 \<longrightarrow> n \<noteq> 0) \<and>
          (hid_div \<noteq> 0 \<longrightarrow> unat rate * 2 < 2 ^ LENGTH('l)) \<and>
          (mode \<noteq> 0 \<longrightarrow> pre_divided (unat rate) (unat hid_div) * unat m < 2 ^ 64) \<and>
          compute_achieved_rate (unat rate) (unat m) (unat n) (mode \<noteq> 0) (unat hid_div)
            < 2 ^ LENGTH('l) \<longrightarrow>
           (\<exists>r. calc_rate rate m n mode hid_div = Inr r \<and>
                unat r = compute_achieved_rate (unat rate) (unat m) (unat n) (mode \<noteq> 0)
                           (unat hid_div)))
       \<and> (hid_div + 1 \<noteq> 0 \<and> (mode \<noteq> 0 \<longrightarrow> n \<noteq> 0) \<longrightarrow>
           (\<exists>r. calc_rate rate m n mode hid_div = Inr r \<and>
                unat r =
                  (let rate1 = (if hid_div \<noteq> 0
                                then (unat rate * 2 mod 2 ^ LENGTH('l)) div (unat hid_div + 1)
                                else unat rate)
                   in if mode \<noteq> 0
                      then (rate1 * unat m mod 2 ^ 64) div unat n mod 2 ^ LENGTH('l)
                      else rate1)))
       \<and> calc_rate rate m n 0 0 = Inr rate
       \<and> calc_rate (800000000 :: 'l word) 1 2 2 3 = Inr 200000000"
proof (intro conjI impI)
  assume h: "hid_div + 1 \<noteq> 0 \<and> (mode \<noteq> 0 \<longrightarrow> n \<noteq> 0) \<and>
          (hid_div \<noteq> 0 \<longrightarrow> unat rate * 2 < 2 ^ LENGTH('l)) \<and>
          (mode \<noteq> 0 \<longrightarrow> pre_divided (unat rate) (unat hid_div) * unat m < 2 ^ 64) \<and>
          compute_achieved_rate (unat rate) (unat m) (unat n) (mode \<noteq> 0) (unat hid_div)
            < 2 ^ LENGTH('l)"
  then show "\<exists>r. calc_rate rate m n mode hid_div = Inr r \<and>
                unat r = compute_achieved_rate (unat rate) (unat m) (unat n) (mode \<noteq> 0)
                           (unat hid_div)"
    by (intro calc_rate_exact [OF L]) simp_all
next
  assume h: "hid_div + 1 \<noteq> 0 \<and> (mode \<noteq> 0 \<longrightarrow> n \<noteq> 0)"
  then show "\<exists>r. calc_rate rate m n mode hid_div = Inr r \<and>
                unat r =
                  (let rate1 = (if hid_div \<noteq> 0
                                then (unat rate * 2 mod 2 ^ LENGTH('l)) div (unat hid_div + 1)
                                else unat rate)
                   in if mode \<noteq> 0
                      then (rate1 * unat m mod 2 ^ 64) div unat n mod 2 ^ LENGTH('l)
                      else rate1)"
    using calc_rate_unat [OF L, of hid_div mode n rate m] by blast
next
  show "calc_rate rate m n 0 0 = Inr rate" by (simp add: calc_rate_def)
next
  have big: "(2::nat) ^ 32 \<le> 2 ^ LENGTH('l)" using L(1) by (rule power_increasing) simp
  have v: "unat (800000000 :: 'l word) = 800000000"
    using big by (simp add: unat_numeral take_bit_eq_mod)
  have v2: "unat (200000000 :: 'l word) = 200000000"
    using big by (simp add: unat_numeral take_bit_eq_mod)
  have s1: "(1600000000::nat) mod 2 ^ LENGTH('l) = 1600000000"
    using big by simp
  have s2: "(200000000::nat) mod 2 ^ LENGTH('l) = 200000000"
    using big by simp
  from calc_rate_unat [OF L, of 3 2 2 "800000000 :: 'l word" 1]
  obtain r where r: "calc_rate (800000000 :: 'l word) 1 2 2 3 = Inr r" and
    u: "unat r = (let rate1 = (if (3::u32) \<noteq> 0
                                then (unat (800000000 :: 'l word) * 2 mod 2 ^ LENGTH('l)) div (unat (3::u32) + 1)
                                else unat (800000000 :: 'l word))
                   in if (2::u32) \<noteq> 0
                      then (rate1 * unat (1::u32) mod 2 ^ 64) div unat (2::u32) mod 2 ^ LENGTH('l)
                      else rate1)"
    by auto
  have v3: "take_bit LENGTH('l) (800000000::nat) = 800000000"
    using big by (simp add: take_bit_eq_mod)
  from u have "unat r = 200000000"
    by (simp add: v3 s1 s2)
  with v2 have "r = 200000000" by (simp add: word_unat_eq_iff)
  with r show "calc_rate (800000000 :: 'l word) 1 2 2 3 = Inr 200000000" by simp
qed

theorem calc_rate_computes_witness:
  "calc_rate (800000000 :: 32 word) 1 2 2 3 = Inr 200000000
   \<and> compute_achieved_rate 800000000 1 2 True 3 = 200000000
   \<and> calc_rate (19200000 :: 64 word) 7 9 0 0 = Inr 19200000
   \<and> (\<exists>r. calc_rate (3000000000 :: 32 word) 1 2 2 3 = Inr r \<and> unat r = 213129088)"
proof -
  have c: "compute_achieved_rate 800000000 1 2 True 3 = 200000000"
    "pre_divided 800000000 3 = 400000000"
    by (simp_all add: compute_achieved_rate_def pre_divided_def)
  have L: "32 \<le> LENGTH(32)" "LENGTH(32) \<le> 64" by simp_all
  have h: "(3 :: u32) + 1 \<noteq> 0 \<and> ((2 :: u32) \<noteq> 0 \<longrightarrow> (2 :: u32) \<noteq> 0) \<and>
          ((3 :: u32) \<noteq> 0 \<longrightarrow> unat (800000000 :: 32 word) * 2 < 2 ^ LENGTH(32)) \<and>
          ((2 :: u32) \<noteq> 0 \<longrightarrow>
             pre_divided (unat (800000000 :: 32 word)) (unat (3 :: u32)) * unat (1 :: u32) < 2 ^ 64) \<and>
          compute_achieved_rate (unat (800000000 :: 32 word)) (unat (1 :: u32)) (unat (2 :: u32))
            ((2 :: u32) \<noteq> 0) (unat (3 :: u32)) < 2 ^ LENGTH(32)"
    by (simp add: compute_achieved_rate_def pre_divided_def)
  from calc_rate_computes [OF L, of 3 2 2 800000000 1, THEN conjunct1, THEN mp, OF h]
  obtain r where r: "calc_rate (800000000 :: 32 word) 1 2 2 3 = Inr r" "unat r = 200000000"
    by (auto simp: compute_achieved_rate_def pre_divided_def)
  from r(2) have "r = 200000000" by (simp add: word_unat_eq_iff)
  with r(1) have a: "calc_rate (800000000 :: 32 word) 1 2 2 3 = Inr 200000000" by simp
  from calc_rate_computes [where 'l = 32, of 3 2 2 3000000000 1]
    calc_rate_computes [where 'l = 64, of 0 0 9 19200000 7]
  have b: "calc_rate (19200000 :: 64 word) 7 9 0 0 = Inr 19200000 \<and>
     (\<exists>r. calc_rate (3000000000 :: 32 word) 1 2 2 3 = Inr r \<and> unat r = 213129088)"
    by simp
  from a b c(1) show ?thesis by simp
qed

text \<open>
  C2 as stated fails. On 32-bit \<open>unsigned long\<close> the doubling of a parent rate of
  3 GHz wraps, and \<open>calc_rate(3000000000, 1, 2, 2, 3)\<close> is 213129088 where the formula
  gives 750000000; a quotient beyond 32 bits is cut; on 64-bit \<open>unsigned long\<close> the
  64-bit product wraps; and a zero \<open>n\<close> in dual-edge mode, or \<open>hid_div + 1\<close> wrapping
  to 0, is a division by zero, on which the code returns nothing.
\<close>

theorem calc_rate_wraps:
  "calc_rate (3000000000 :: 32 word) 1 2 2 3 = Inr 213129088
   \<and> compute_achieved_rate 3000000000 1 2 True 3 = 750000000
   \<and> calc_rate (3000000000 :: 32 word) 2 1 2 0 = Inr 1705032704
   \<and> compute_achieved_rate 3000000000 2 1 True 0 = 6000000000
   \<and> calc_rate (0x8000000000000000 :: 64 word) 4 4 2 0 = Inr 0
   \<and> compute_achieved_rate 0x8000000000000000 4 4 True 0 = 0x8000000000000000
   \<and> calc_rate (19200000 :: 32 word) 1 0 2 0 = Inl Div_by_zero
   \<and> calc_rate (19200000 :: 32 word) 0 0 0 0xffffffff = Inl Div_by_zero"
  by (simp add: calc_rate_def compute_achieved_rate_def pre_divided_def)

section \<open>The commit protocol\<close>

lemma hw_tick_log_event: "hw_tick (log_event ev w) = log_event ev (hw_tick w)"
  by (simp add: hw_tick_def log_event_def)

lemma hw_ticks_log_event: "(hw_tick ^^ j) (log_event ev w) = log_event ev ((hw_tick ^^ j) w)"
  by (induction j) (simp_all add: hw_tick_log_event)

lemma fst_regmap_read_log_event:
  "fst (regmap_read (log_event ev w) reg) = fst (regmap_read w reg)"
  by (simp add: regmap_read_def log_event_def hw_tick_def Let_def)

lemma seen_log_event: "seen (log_event ev w) reg j = seen w reg j"
  by (simp add: seen_def hw_ticks_log_event fst_regmap_read_log_event)

lemma snd_regmap_read: "snd (regmap_read w reg) = log_event (Ev_read reg (fst (regmap_read w reg))) (hw_tick w)"
  by (simp add: regmap_read_def Let_def)

lemma seen_0: "seen w reg 0 = fst (regmap_read w reg)"
  by (simp add: seen_def)

lemma seen_next: "seen (udelay us (snd (regmap_read w reg))) reg j = seen w reg (Suc j)"
  by (simp add: udelay_def seen_log_event snd_regmap_read) (simp add: seen_def funpow_swap1)

lemma reads_in_read: "reads_in (snd (regmap_read w reg)) = Suc (reads_in w)"
  by (simp add: reads_in_def regmap_read_def Let_def log_event_def hw_tick_def)

lemma warns_in_read: "warns_in (snd (regmap_read w reg)) = warns_in w"
  by (simp add: warns_in_def regmap_read_def Let_def log_event_def hw_tick_def)

lemma reads_in_udelay: "reads_in (udelay us w) = reads_in w"
  by (simp add: reads_in_def udelay_def log_event_def)

lemma warns_in_udelay: "warns_in (udelay us w) = warns_in w"
  by (simp add: warns_in_def udelay_def log_event_def)

lemma regmap_read_step:
  assumes "regmap_read w reg = (res, w1)"
  shows "res = seen w reg 0" "reads_in w1 = Suc (reads_in w)" "warns_in w1 = warns_in w"
    "reads_in (udelay us w1) = Suc (reads_in w)" "warns_in (udelay us w1) = warns_in w"
    "seen (udelay us w1) reg j = seen w reg (Suc j)"
proof -
  from assms have w1: "w1 = snd (regmap_read w reg)" and res: "res = fst (regmap_read w reg)"
    by simp_all
  show "res = seen w reg 0" by (simp add: res seen_0)
  show "reads_in w1 = Suc (reads_in w)" by (simp add: w1 reads_in_read)
  show "warns_in w1 = warns_in w" by (simp add: w1 warns_in_read)
  show "reads_in (udelay us w1) = Suc (reads_in w)" by (simp add: w1 reads_in_read reads_in_udelay)
  show "warns_in (udelay us w1) = warns_in w" by (simp add: w1 warns_in_read warns_in_udelay)
  show "seen (udelay us w1) reg j = seen w reg (Suc j)" by (simp only: w1 seen_next)
qed

lemma poll_bound:
  "update_config_poll reg count w = (r, w') \<Longrightarrow>
     reads_in w' \<le> reads_in w + count \<and> warns_in w' = warns_in w"
proof (induction count arbitrary: w)
  case 0
  then show ?case by simp
next
  case (Suc count)
  obtain res w1 where rd: "regmap_read w reg = (res, w1)" by (cases "regmap_read w reg")
  note st = regmap_read_step [OF rd]
  show ?case
  proof (cases "update_set res")
    case True
    then obtain cmd where "res = Inr cmd" "cmd AND CMD_UPDATE \<noteq> 0"
      by (auto simp: update_set_def split: sum.splits)
    with Suc.prems rd have "update_config_poll reg count (udelay 1 w1) = (r, w')" by simp
    from Suc.IH [OF this] show ?thesis
      by (simp add: st)
  next
    case False
    with Suc.prems rd have "w' = w1"
      by (auto simp: update_set_def split: sum.splits if_splits)
    then show ?thesis by (simp add: st)
  qed
qed

lemma poll_exit:
  "k < count \<Longrightarrow> \<forall>j<k. update_set (seen w reg j) \<Longrightarrow> update_clear (seen w reg k) \<Longrightarrow>
     \<exists>w'. update_config_poll reg count w = (Some 0, w') \<and>
          reads_in w' = reads_in w + k + 1 \<and> warns_in w' = warns_in w"
proof (induction count arbitrary: w k)
  case 0
  then show ?case by simp
next
  case (Suc count)
  obtain res w1 where rd: "regmap_read w reg = (res, w1)" by (cases "regmap_read w reg")
  note st = regmap_read_step [OF rd]
  show ?case
  proof (cases k)
    case 0
    with Suc.prems st(1) obtain cmd where "res = Inr cmd" "cmd AND CMD_UPDATE = 0"
      by (auto simp: update_clear_def split: sum.splits)
    with rd 0 show ?thesis by (simp add: st(2,3))
  next
    case (Suc k')
    with Suc.prems st(1) have "update_set res" by auto
    then obtain cmd where cmd: "res = Inr cmd" "cmd AND CMD_UPDATE \<noteq> 0"
      by (auto simp: update_set_def split: sum.splits)
    have a: "k' < count" using Suc Suc.prems by simp
    have b: "\<forall>j<k'. update_set (seen (udelay 1 w1) reg j)"
      using Suc Suc.prems by (simp add: st(6))
    have c: "update_clear (seen (udelay 1 w1) reg k')"
      using Suc Suc.prems by (simp add: st(6))
    from Suc.IH [OF a b c] obtain w' where
      "update_config_poll reg count (udelay 1 w1) = (Some 0, w')"
      "reads_in w' = reads_in (udelay 1 w1) + k' + 1" "warns_in w' = warns_in (udelay 1 w1)"
      by blast
    with rd cmd Suc show ?thesis
      by (simp add: st(4,5))
  qed
qed

lemma poll_exhaust:
  "\<forall>j<count. update_set (seen w reg j) \<Longrightarrow>
     \<exists>w'. update_config_poll reg count w = (None, w') \<and>
          reads_in w' = reads_in w + count \<and> warns_in w' = warns_in w"
proof (induction count arbitrary: w)
  case 0
  then show ?case by simp
next
  case (Suc count)
  obtain res w1 where rd: "regmap_read w reg = (res, w1)" by (cases "regmap_read w reg")
  note st = regmap_read_step [OF rd]
  from Suc.prems st(1) have "update_set res" by auto
  then obtain cmd where cmd: "res = Inr cmd" "cmd AND CMD_UPDATE \<noteq> 0"
    by (auto simp: update_set_def split: sum.splits)
  have b: "\<forall>j<count. update_set (seen (udelay 1 w1) reg j)"
    using Suc.prems by (simp add: st(6))
  from Suc.IH [OF b] obtain w' where
    "update_config_poll reg count (udelay 1 w1) = (None, w')"
    "reads_in w' = reads_in (udelay 1 w1) + count" "warns_in w' = warns_in (udelay 1 w1)"
    by blast
  with rd cmd show ?case
    by (simp add: st(4,5))
qed

lemma poll_error:
  "update_config_poll reg count w = (Some e, w') \<Longrightarrow> e \<noteq> 0 \<Longrightarrow>
     \<exists>j<count. seen w reg j = Inl e"
proof (induction count arbitrary: w)
  case 0
  then show ?case by simp
next
  case (Suc count)
  obtain res w1 where rd: "regmap_read w reg = (res, w1)" by (cases "regmap_read w reg")
  note st = regmap_read_step [OF rd]
  show ?case
  proof (cases res)
    case (Inl ret)
    with Suc.prems rd have "ret = e" by simp
    with Inl st(1) have "seen w reg 0 = Inl e" by simp
    then show ?thesis by blast
  next
    case (Inr cmd)
    with Suc.prems rd have "update_config_poll reg count (udelay 1 w1) = (Some e, w')"
      by (simp split: if_splits)
    from Suc.IH [OF this Suc.prems(2)] obtain j where "j < count" "seen w reg (Suc j) = Inl e"
      by (auto simp: st(6))
    then show ?thesis by (metis Suc_less_eq)
  qed
qed

lemma update_bits_counts:
  "regmap_update_bits w reg msk val = (ret, w1) \<Longrightarrow> reads_in w1 = reads_in w \<and> warns_in w1 = warns_in w"
  by (auto simp: regmap_update_bits_def Let_def reads_in_def warns_in_def log_event_def hw_tick_def)

lemma warns_in_WARN: "warns_in (WARN msg w) = Suc (warns_in w)" "reads_in (WARN msg w) = reads_in w"
  by (simp_all add: WARN_def warns_in_def reads_in_def log_event_def)

text \<open>
  C3. Once \<open>update_config\<close> has set the update bit, it reads the command register at
  most 500 times. If the \<open>k\<close>-th read is the first to see the update bit clear, it
  returns 0 after exactly those \<open>k + 1\<close> reads, with no diagnostic. If 500 reads all
  see the bit set, it emits exactly one diagnostic and returns 0. A nonzero return is
  the code of a read that failed, never the exhausted bound.
\<close>

theorem update_config_bounded_poll:
  assumes upd: "regmap_update_bits w (cmd_rcgr rcg + CMD_REG) CMD_UPDATE CMD_UPDATE = (0, w1)"
      and run: "update_config rcg w = (ret, w')"
  shows "reads_in w' \<le> reads_in w + 500
       \<and> (\<forall>k<500. (\<forall>j<k. update_set (seen w1 (cmd_rcgr rcg + CMD_REG) j)) \<and>
                    update_clear (seen w1 (cmd_rcgr rcg + CMD_REG) k) \<longrightarrow>
             ret = 0 \<and> reads_in w' = reads_in w + k + 1 \<and> warns_in w' = warns_in w)
       \<and> ((\<forall>j<500. update_set (seen w1 (cmd_rcgr rcg + CMD_REG) j)) \<longrightarrow>
             ret = 0 \<and> reads_in w' = reads_in w + 500 \<and> warns_in w' = warns_in w + 1)
       \<and> (ret \<noteq> 0 \<longrightarrow> warns_in w' = warns_in w \<and>
             (\<exists>j<500. seen w1 (cmd_rcgr rcg + CMD_REG) j = Inl ret))"
proof -
  let ?reg = "cmd_rcgr rcg + CMD_REG"
  obtain r w2 where poll: "update_config_poll ?reg 500 w1 = (r, w2)"
    by (cases "update_config_poll ?reg 500 w1")
  from update_bits_counts [OF upd] have c1: "reads_in w1 = reads_in w" "warns_in w1 = warns_in w"
    by simp_all
  from poll_bound [OF poll] c1 have c2: "reads_in w2 \<le> reads_in w + 500" "warns_in w2 = warns_in w"
    by simp_all
  from run upd poll have out:
    "(ret, w') = (case r of Some ret' \<Rightarrow> (ret', w2)
                  | None \<Rightarrow> (0, WARN (clk_name (hw_clk rcg) @ '': rcg didn't update its configuration.'') w2))"
    by (simp add: update_config_def Let_def)
  have p1: "reads_in w' \<le> reads_in w + 500"
    using out c2 by (cases r) (auto simp: warns_in_WARN)
  have p2: "ret = 0 \<and> reads_in w' = reads_in w + k + 1 \<and> warns_in w' = warns_in w"
    if "k < 500" "\<forall>j<k. update_set (seen w1 ?reg j)" "update_clear (seen w1 ?reg k)" for k
  proof -
    from poll_exit [OF that] obtain w3 where
      "update_config_poll ?reg 500 w1 = (Some 0, w3)" "reads_in w3 = reads_in w1 + k + 1"
      "warns_in w3 = warns_in w1" by blast
    with poll out c1 show ?thesis by auto
  qed
  have p3: "ret = 0 \<and> reads_in w' = reads_in w + 500 \<and> warns_in w' = warns_in w + 1"
    if "\<forall>j<500. update_set (seen w1 ?reg j)"
  proof -
    from poll_exhaust [OF that] obtain w3 where
      "update_config_poll ?reg 500 w1 = (None, w3)" "reads_in w3 = reads_in w1 + 500"
      "warns_in w3 = warns_in w1" by blast
    with poll out c1 show ?thesis by (auto simp: warns_in_WARN)
  qed
  have p4: "warns_in w' = warns_in w \<and> (\<exists>j<500. seen w1 ?reg j = Inl ret)" if "ret \<noteq> 0"
  proof -
    from that out obtain "r = Some ret" "w' = w2" by (cases r) auto
    with poll poll_error [of ?reg 500 w1 ret w2] that c2 show ?thesis by simp
  qed
  from p1 p2 p3 p4 show ?thesis by blast
qed

lemma hw_ticks_quiet:
  "async w = (\<lambda>i r. r) \<Longrightarrow> (hw_tick ^^ j) w = w\<lparr>clock := clock w + j\<rparr>"
  by (induction j) (simp_all add: hw_tick_def)

lemma seen_quiet:
  "async w = (\<lambda>i r. r) \<Longrightarrow> bus w = (\<lambda>i. 0) \<Longrightarrow> seen w reg j = Inr (regs w reg)"
  by (simp add: seen_def hw_ticks_quiet regmap_read_def Let_def hw_tick_def)

theorem update_config_bounded_poll_witness:
  "fst (update_config ex_rcg ex_world) = 0
   \<and> reads_in (snd (update_config ex_rcg ex_world)) = 1
   \<and> warns_in (snd (update_config ex_rcg ex_world)) = 0
   \<and> fst (update_config ex_rcg stuck_world) = 0
   \<and> reads_in (snd (update_config ex_rcg stuck_world)) = 500
   \<and> warns_in (snd (update_config ex_rcg stuck_world)) = 1"
proof -
  let ?reg = "cmd_rcgr ex_rcg + CMD_REG"
  obtain w1 where u1: "regmap_update_bits ex_world ?reg CMD_UPDATE CMD_UPDATE = (0, w1)"
    by (simp add: regmap_update_bits_def Let_def ex_world_def)
  then have w1: "w1 = snd (regmap_update_bits ex_world ?reg CMD_UPDATE CMD_UPDATE)" by simp
  have clear: "update_clear (seen w1 ?reg 0)"
    by (simp add: w1 update_clear_def seen_def regmap_read_def regmap_update_bits_def Let_def
        hw_tick_def log_event_def ex_world_def ex_rcg_def CMD_REG_def CMD_UPDATE_def)
  have r0: "reads_in ex_world = 0" "warns_in ex_world = 0"
    by (simp_all add: reads_in_def warns_in_def ex_world_def)
  from update_config_bounded_poll [OF u1, of "fst (update_config ex_rcg ex_world)"
      "snd (update_config ex_rcg ex_world)"] clear r0
  have a: "fst (update_config ex_rcg ex_world) = 0
   \<and> reads_in (snd (update_config ex_rcg ex_world)) = 1
   \<and> warns_in (snd (update_config ex_rcg ex_world)) = 0"
    by force
  obtain w2 where u2: "regmap_update_bits stuck_world ?reg CMD_UPDATE CMD_UPDATE = (0, w2)"
    by (simp add: regmap_update_bits_def Let_def stuck_world_def)
  then have w2: "w2 = snd (regmap_update_bits stuck_world ?reg CMD_UPDATE CMD_UPDATE)" by simp
  have q: "async w2 = (\<lambda>i r. r)" "bus w2 = (\<lambda>i. 0)" "regs w2 ?reg = 1"
    by (simp_all add: w2 regmap_update_bits_def Let_def hw_tick_def log_event_def stuck_world_def
        CMD_UPDATE_def)
  have stuck: "\<forall>j<500. update_set (seen w2 ?reg j)"
    by (simp add: seen_quiet [OF q(1,2)] q(3) update_set_def CMD_UPDATE_def)
  have r1: "reads_in stuck_world = 0" "warns_in stuck_world = 0"
    by (simp_all add: reads_in_def warns_in_def stuck_world_def)
  from update_config_bounded_poll [OF u2, of "fst (update_config ex_rcg stuck_world)"
      "snd (update_config ex_rcg stuck_world)"] stuck r1
  have b: "fst (update_config ex_rcg stuck_world) = 0
   \<and> reads_in (snd (update_config ex_rcg stuck_world)) = 500
   \<and> warns_in (snd (update_config ex_rcg stuck_world)) = 1"
    by simp
  from a b show ?thesis by simp
qed

section \<open>Enable state\<close>

lemma and_CMD_ROOT_OFF: "(cmd AND CMD_ROOT_OFF \<noteq> 0) = bit cmd 31"
proof -
  have "cmd AND 2 ^ 31 = 0 \<longleftrightarrow> \<not> bit cmd 31"
    by (rule and_exp_eq_0_iff_not_bit)
  moreover have "CMD_ROOT_OFF = 2 ^ 31"
    by (simp only: CMD_ROOT_OFF_def push_bit_of_1)
  ultimately show ?thesis by simp
qed

text \<open>
  C4. What \<open>clk_rcg2_is_enabled\<close> returns: the code of a read that failed, and after
  a read that succeeded 1 exactly when bit 31 of the command register, the root-off
  bit, is set, 0 when it is clear. The claim has it the other way round.
\<close>

theorem clk_rcg2_is_enabled_returns:
  "regmap_read w (cmd_rcgr rcg + CMD_REG) = (res, w1) \<Longrightarrow>
     clk_rcg2_is_enabled rcg w =
       (case res of
          Inl ret \<Rightarrow> (ret, w1)
        | Inr cmd \<Rightarrow> ((if bit cmd 31 then 1 else 0), w1))"
  by (simp add: clk_rcg2_is_enabled_def and_CMD_ROOT_OFF split: sum.splits)

theorem clk_rcg2_is_enabled_root_off:
  "fst (regmap_read root_off_world (cmd_rcgr ex_rcg + CMD_REG)) = Inr 0x80000000
   \<and> fst (clk_rcg2_is_enabled ex_rcg root_off_world) = 1
   \<and> fst (regmap_read stuck_world (cmd_rcgr ex_rcg + CMD_REG)) = Inr 0
   \<and> fst (clk_rcg2_is_enabled ex_rcg stuck_world) = 0"
proof -
  let ?reg = "cmd_rcgr ex_rcg + CMD_REG"
  have fa: "fst (regmap_read root_off_world ?reg) = Inr 0x80000000"
    by (simp add: regmap_read_def Let_def root_off_world_def hw_tick_def ex_rcg_def CMD_REG_def)
  have fb: "fst (regmap_read stuck_world ?reg) = Inr 0"
    by (simp add: regmap_read_def Let_def stuck_world_def hw_tick_def)
  obtain wa where a: "regmap_read root_off_world ?reg = (Inr 0x80000000, wa)"
    using fa by (cases "regmap_read root_off_world ?reg") simp
  obtain wb where b: "regmap_read stuck_world ?reg = (Inr 0, wb)"
    using fb by (cases "regmap_read stuck_world ?reg") simp
  from clk_rcg2_is_enabled_returns [OF a] clk_rcg2_is_enabled_returns [OF b] fa fb
  show ?thesis by simp
qed

section \<open>Programming the M/N:D counter\<close>

lemma width_mask_eq:
  "unat width < LENGTH('l::len) \<Longrightarrow> width_mask TYPE('l) width = Inr (mask (unat width))"
proof -
  assume a: "unat width < LENGTH('l)"
  have "(push_bit (unat width) 1 :: 'l word) - 1 = mask (unat width)"
    by (simp add: mask_eq_exp_minus_1 push_bit_of_1)
  moreover have "(ucast (mask (unat width) :: 'l word) :: u32) = mask (unat width)"
    using a by (intro bit_word_eqI) (auto simp: bit_simps)
  ultimately show ?thesis using a by (simp add: width_mask_def BIT_def)
qed

lemma update_bits_fields:
  "regmap_update_bits w reg msk val = (ret, w1) \<Longrightarrow>
     ret = bus w (clock w) \<and> clock w1 = Suc (clock w) \<and> bus w1 = bus w \<and> async w1 = async w \<and>
     trace w1 = trace w @ [Ev_update reg msk val ret]"
  by (auto simp: regmap_update_bits_def Let_def hw_tick_def log_event_def)

lemma update_bits_written:
  "regmap_update_bits w reg msk val = (0, w1) \<Longrightarrow> regs w1 reg AND msk = val AND msk"
proof -
  assume "regmap_update_bits w reg msk val = (0, w1)"
  then have "regs w1 reg = (async w (clock w) (regs w) reg AND NOT msk) OR (val AND msk)"
    by (auto simp: regmap_update_bits_def Let_def hw_tick_def log_event_def)
  then show ?thesis
    by (simp add: bit_eq_iff bit_simps) blast
qed

text \<open>
  C5. When \<open>mnd_width\<close> is nonzero and the matched record has a nonzero \<open>n\<close>,
  \<open>__clk_rcg2_set_rate\<close> first updates, under the mask of \<open>mnd_width\<close> bits, the M
  register with \<open>m\<close>, then the N register with \<open>~(n - m)\<close>, then the D register with
  \<open>~n\<close>. If one of these fails, its error code is returned and that write is the last
  thing done. If all three succeed, each register holds its value in the masked bits
  right after its write, and the function goes on to the config register.
  (\<open>mnd_width\<close> is below the width of \<open>unsigned long\<close>, so that the mask is defined.)
\<close>

theorem set_rate_mnd_sequence:
  fixes rcg :: "('l::len) clk_rcg2"
  assumes found: "find_freq (freq_tbl rcg) rate = Inr (Some (i, fe))"
      and frac: "mnd_width rcg \<noteq> 0" "tbl_n fe \<noteq> 0"
      and wd: "unat (mnd_width rcg) < LENGTH('l)"
  shows "(bus w (clock w) \<noteq> 0 \<longrightarrow>
            (\<exists>w'. do_clk_rcg2_set_rate rcg rate w = Inr (bus w (clock w), w') \<and>
                  trace w' = trace w @ [ev_m rcg fe (bus w (clock w))]))
       \<and> (bus w (clock w) = 0 \<and> bus w (clock w + 1) \<noteq> 0 \<longrightarrow>
            (\<exists>w'. do_clk_rcg2_set_rate rcg rate w = Inr (bus w (clock w + 1), w') \<and>
                  trace w' = trace w @ [ev_m rcg fe 0, ev_n rcg fe (bus w (clock w + 1))]))
       \<and> (bus w (clock w) = 0 \<and> bus w (clock w + 1) = 0 \<and> bus w (clock w + 2) \<noteq> 0 \<longrightarrow>
            (\<exists>w'. do_clk_rcg2_set_rate rcg rate w = Inr (bus w (clock w + 2), w') \<and>
                  trace w' = trace w @ [ev_m rcg fe 0, ev_n rcg fe 0,
                                        ev_d rcg fe (bus w (clock w + 2))]))
       \<and> (bus w (clock w) = 0 \<and> bus w (clock w + 1) = 0 \<and> bus w (clock w + 2) = 0 \<longrightarrow>
            (\<exists>(w1::world) (w2::world) (w3::world).
                  regs w1 (cmd_rcgr rcg + M_REG) AND mask (unat (mnd_width rcg))
                    = ucast (tbl_m fe) AND mask (unat (mnd_width rcg)) \<and>
                  trace w1 = trace w @ [ev_m rcg fe 0] \<and>
                  regs w2 (cmd_rcgr rcg + N_REG) AND mask (unat (mnd_width rcg))
                    = NOT (ucast (tbl_n fe) - ucast (tbl_m fe)) AND mask (unat (mnd_width rcg)) \<and>
                  trace w2 = trace w1 @ [ev_n rcg fe 0] \<and>
                  regs w3 (cmd_rcgr rcg + D_REG) AND mask (unat (mnd_width rcg))
                    = NOT (ucast (tbl_n fe)) AND mask (unat (mnd_width rcg)) \<and>
                  trace w3 = trace w2 @ [ev_d rcg fe 0] \<and>
                  do_clk_rcg2_set_rate rcg rate w = set_rate_cfg rcg fe w3))"
proof -
  let ?msk = "mask (unat (mnd_width rcg)) :: u32"
  obtain r1 w1 where u1: "regmap_update_bits w (cmd_rcgr rcg + M_REG) ?msk (ucast (tbl_m fe)) = (r1, w1)"
    by (cases "regmap_update_bits w (cmd_rcgr rcg + M_REG) ?msk (ucast (tbl_m fe))")
  obtain r2 w2 where u2: "regmap_update_bits w1 (cmd_rcgr rcg + N_REG) ?msk
      (NOT (ucast (tbl_n fe) - ucast (tbl_m fe))) = (r2, w2)"
    by (cases "regmap_update_bits w1 (cmd_rcgr rcg + N_REG) ?msk
      (NOT (ucast (tbl_n fe) - ucast (tbl_m fe)))")
  obtain r3 w3 where u3: "regmap_update_bits w2 (cmd_rcgr rcg + D_REG) ?msk
      (NOT (ucast (tbl_n fe))) = (r3, w3)"
    by (cases "regmap_update_bits w2 (cmd_rcgr rcg + D_REG) ?msk (NOT (ucast (tbl_n fe)))")
  note f1 = update_bits_fields [OF u1]
  note f2 = update_bits_fields [OF u2]
  note f3 = update_bits_fields [OF u3]
  have run: "do_clk_rcg2_set_rate rcg rate w =
      (if r1 \<noteq> 0 then Inr (r1, w1)
       else if r2 \<noteq> 0 then Inr (r2, w2)
       else if r3 \<noteq> 0 then Inr (r3, w3)
       else set_rate_cfg rcg fe w3)"
    using found frac u1 u2 u3
    by (simp add: do_clk_rcg2_set_rate_def width_mask_eq [OF wd] set_rate_mnd_def)
  have r: "r1 = bus w (clock w)" "r2 = bus w (clock w + 1)" "r3 = bus w (clock w + 2)"
    using f1 f2 f3 by simp_all
  have t: "trace w1 = trace w @ [ev_m rcg fe r1]"
    "trace w2 = trace w @ [ev_m rcg fe r1, ev_n rcg fe r2]"
    "trace w3 = trace w @ [ev_m rcg fe r1, ev_n rcg fe r2, ev_d rcg fe r3]"
    using f1 f2 f3 by (simp_all add: ev_m_def ev_n_def ev_d_def)
  have c1: "bus w (clock w) \<noteq> 0 \<longrightarrow>
            (\<exists>w'. do_clk_rcg2_set_rate rcg rate w = Inr (bus w (clock w), w') \<and>
                  trace w' = trace w @ [ev_m rcg fe (bus w (clock w))])"
    using run r t by auto
  have c2: "bus w (clock w) = 0 \<and> bus w (clock w + 1) \<noteq> 0 \<longrightarrow>
            (\<exists>w'. do_clk_rcg2_set_rate rcg rate w = Inr (bus w (clock w + 1), w') \<and>
                  trace w' = trace w @ [ev_m rcg fe 0, ev_n rcg fe (bus w (clock w + 1))])"
    using run r t by auto
  have c3: "bus w (clock w) = 0 \<and> bus w (clock w + 1) = 0 \<and> bus w (clock w + 2) \<noteq> 0 \<longrightarrow>
            (\<exists>w'. do_clk_rcg2_set_rate rcg rate w = Inr (bus w (clock w + 2), w') \<and>
                  trace w' = trace w @ [ev_m rcg fe 0, ev_n rcg fe 0,
                                        ev_d rcg fe (bus w (clock w + 2))])"
    using run r t by auto
  have c4: "\<exists>(w1::world) (w2::world) (w3::world).
                  regs w1 (cmd_rcgr rcg + M_REG) AND ?msk = ucast (tbl_m fe) AND ?msk \<and>
                  trace w1 = trace w @ [ev_m rcg fe 0] \<and>
                  regs w2 (cmd_rcgr rcg + N_REG) AND ?msk
                    = NOT (ucast (tbl_n fe) - ucast (tbl_m fe)) AND ?msk \<and>
                  trace w2 = trace w1 @ [ev_n rcg fe 0] \<and>
                  regs w3 (cmd_rcgr rcg + D_REG) AND ?msk = NOT (ucast (tbl_n fe)) AND ?msk \<and>
                  trace w3 = trace w2 @ [ev_d rcg fe 0] \<and>
                  do_clk_rcg2_set_rate rcg rate w = set_rate_cfg rcg fe w3"
    if ok: "bus w (clock w) = 0 \<and> bus w (clock w + 1) = 0 \<and> bus w (clock w + 2) = 0"
  proof -
    from ok r have z: "r1 = 0" "r2 = 0" "r3 = 0" by simp_all
    from u1 u2 u3 z have
      "regs w1 (cmd_rcgr rcg + M_REG) AND ?msk = ucast (tbl_m fe) AND ?msk"
      "regs w2 (cmd_rcgr rcg + N_REG) AND ?msk = NOT (ucast (tbl_n fe) - ucast (tbl_m fe)) AND ?msk"
      "regs w3 (cmd_rcgr rcg + D_REG) AND ?msk = NOT (ucast (tbl_n fe)) AND ?msk"
      by (simp_all add: update_bits_written)
    moreover from t z have "trace w1 = trace w @ [ev_m rcg fe 0]"
      "trace w2 = trace w1 @ [ev_n rcg fe 0]" "trace w3 = trace w2 @ [ev_d rcg fe 0]"
      by simp_all
    moreover from run z have "do_clk_rcg2_set_rate rcg rate w = set_rate_cfg rcg fe w3"
      by simp
    ultimately have
      "regs w1 (cmd_rcgr rcg + M_REG) AND ?msk = ucast (tbl_m fe) AND ?msk \<and>
       trace w1 = trace w @ [ev_m rcg fe 0] \<and>
       regs w2 (cmd_rcgr rcg + N_REG) AND ?msk
         = NOT (ucast (tbl_n fe) - ucast (tbl_m fe)) AND ?msk \<and>
       trace w2 = trace w1 @ [ev_n rcg fe 0] \<and>
       regs w3 (cmd_rcgr rcg + D_REG) AND ?msk = NOT (ucast (tbl_n fe)) AND ?msk \<and>
       trace w3 = trace w2 @ [ev_d rcg fe 0] \<and>
       do_clk_rcg2_set_rate rcg rate w = set_rate_cfg rcg fe w3"
      by simp
    then show ?thesis
      by blast
  qed
  from c1 c2 c3 c4 show ?thesis by blast
qed

lemmas model_defs =
  do_clk_rcg2_set_rate_def set_rate_mnd_def set_rate_cfg_def update_config_def
  regmap_update_bits_def regmap_read_def hw_tick_def log_event_def udelay_def WARN_def
  width_mask_def BIT_def find_freq_def Let_def
  CMD_REG_def CMD_UPDATE_def CFG_REG_def M_REG_def N_REG_def D_REG_def
  CFG_SRC_DIV_SHIFT_def CFG_SRC_SEL_SHIFT_def CFG_SRC_SEL_MASK_def CFG_MODE_SHIFT_def
  CFG_MODE_MASK_def CFG_MODE_DUAL_EDGE_def EINVAL_def

lemmas example_defs =
  ex_rcg_def ex_tbl_def ex_clk_def ex_world_def stuck_world_def bus_fails_at_def

theorem set_rate_mnd_sequence_witness:
  "map_sum id (\<lambda>(ret, w). (ret, trace w)) (do_clk_rcg2_set_rate ex_rcg 50000000 (bus_fails_at 0))
     = Inr (- 5, [Ev_update 0x190c 0xff 1 (- 5)])
   \<and> map_sum id (\<lambda>(ret, w). (ret, trace w)) (do_clk_rcg2_set_rate ex_rcg 50000000 (bus_fails_at 1))
     = Inr (- 5, [Ev_update 0x190c 0xff 1 0, Ev_update 0x1910 0xff 0xfffffffe (- 5)])
   \<and> map_sum id (\<lambda>(ret, w). (ret, trace w)) (do_clk_rcg2_set_rate ex_rcg 50000000 (bus_fails_at 2))
     = Inr (- 5, [Ev_update 0x190c 0xff 1 0, Ev_update 0x1910 0xff 0xfffffffe 0,
                  Ev_update 0x1914 0xff 0xfffffffd (- 5)])
   \<and> (\<exists>w3::world. trace w3 = [Ev_update 0x190c 0xff 1 0, Ev_update 0x1910 0xff 0xfffffffe 0,
                         Ev_update 0x1914 0xff 0xfffffffd 0] \<and>
            do_clk_rcg2_set_rate ex_rcg 50000000 ex_world = set_rate_cfg ex_rcg (ex_tbl ! 1) w3)
"
proof -
  let ?fe = "\<lparr>freq = 100000000, src = 1, pre_div = 3, tbl_m = 1, tbl_n = 2\<rparr> :: 32 freq_tbl"
  have found: "find_freq (freq_tbl ex_rcg) 50000000 = Inr (Some (1, ?fe))"
    by (simp add: find_freq_def ex_rcg_def ex_tbl_def)
  have frac: "mnd_width ex_rcg \<noteq> 0" "tbl_n ?fe \<noteq> 0"
    by (simp_all add: ex_rcg_def ex_tbl_def)
  have wd: "unat (mnd_width ex_rcg) < LENGTH(32)"
    by (simp add: ex_rcg_def)
  note th = set_rate_mnd_sequence [OF found frac wd]
  have ev: "ev_m ex_rcg ?fe ret = Ev_update 0x190c 0xff 1 ret"
    "ev_n ex_rcg ?fe ret = Ev_update 0x1910 0xff 0xfffffffe ret"
    "ev_d ex_rcg ?fe ret = Ev_update 0x1914 0xff 0xfffffffd ret" for ret
    by (simp_all add: ev_m_def ev_n_def ev_d_def ex_rcg_def ex_tbl_def M_REG_def N_REG_def
        D_REG_def mask_eq_exp_minus_1)
  have a: "map_sum id (\<lambda>(ret, w). (ret, trace w)) (do_clk_rcg2_set_rate ex_rcg 50000000 (bus_fails_at 0))
     = Inr (- 5, [Ev_update 0x190c 0xff 1 (- 5)])"
    using th [of "bus_fails_at 0"] by (auto simp: ev bus_fails_at_def ex_world_def)
  have b: "map_sum id (\<lambda>(ret, w). (ret, trace w)) (do_clk_rcg2_set_rate ex_rcg 50000000 (bus_fails_at 1))
     = Inr (- 5, [Ev_update 0x190c 0xff 1 0, Ev_update 0x1910 0xff 0xfffffffe (- 5)])"
    using th [of "bus_fails_at 1"] by (auto simp: ev bus_fails_at_def ex_world_def)
  have c: "map_sum id (\<lambda>(ret, w). (ret, trace w)) (do_clk_rcg2_set_rate ex_rcg 50000000 (bus_fails_at 2))
     = Inr (- 5, [Ev_update 0x190c 0xff 1 0, Ev_update 0x1910 0xff 0xfffffffe 0,
                  Ev_update 0x1914 0xff 0xfffffffd (- 5)])"
    using th [of "bus_fails_at 2"] by (auto simp: ev bus_fails_at_def ex_world_def)
  have ok: "bus ex_world (clock ex_world) = 0 \<and> bus ex_world (clock ex_world + 1) = 0 \<and>
      bus ex_world (clock ex_world + 2) = 0"
    by (simp add: ex_world_def)
  from th [of ex_world, THEN conjunct2, THEN conjunct2, THEN conjunct2, THEN mp, OF ok]
  obtain w1 w2 w3 :: world where w:
    "regs w1 (cmd_rcgr ex_rcg + M_REG) AND mask (unat (mnd_width ex_rcg))
       = ucast (tbl_m ?fe) AND mask (unat (mnd_width ex_rcg))"
    "trace w1 = trace ex_world @ [ev_m ex_rcg ?fe 0]"
    "trace w2 = trace w1 @ [ev_n ex_rcg ?fe 0]"
    "trace w3 = trace w2 @ [ev_d ex_rcg ?fe 0]"
    "do_clk_rcg2_set_rate ex_rcg 50000000 ex_world = set_rate_cfg ex_rcg ?fe w3"
    by blast
  have fe: "ex_tbl ! 1 = ?fe" by (simp add: ex_tbl_def)
  from w(2,3,4) have "trace w3 = [Ev_update 0x190c 0xff 1 0, Ev_update 0x1910 0xff 0xfffffffe 0,
                         Ev_update 0x1914 0xff 0xfffffffd 0]"
    by (simp add: ev) (simp add: ex_world_def)
  then have d: "\<exists>w3::world. trace w3 = [Ev_update 0x190c 0xff 1 0, Ev_update 0x1910 0xff 0xfffffffe 0,
                         Ev_update 0x1914 0xff 0xfffffffd 0] \<and>
            do_clk_rcg2_set_rate ex_rcg 50000000 ex_world = set_rate_cfg ex_rcg (ex_tbl ! 1) w3"
    using w(5) fe by auto
  from a b c d show ?thesis by simp
qed
section \<open>The config register\<close>

lemma read_frame:
  "regmap_read w r = (res, w1) \<Longrightarrow> untouched w reg \<Longrightarrow>
     regs w1 reg = regs w reg \<and> untouched w1 reg"
  by (auto simp: regmap_read_def Let_def hw_tick_def log_event_def untouched_def)

lemma update_frame:
  "regmap_update_bits w r msk val = (ret, w1) \<Longrightarrow> untouched w reg \<Longrightarrow> r \<noteq> reg \<Longrightarrow>
     regs w1 reg = regs w reg \<and> untouched w1 reg"
  by (auto simp: regmap_update_bits_def Let_def hw_tick_def log_event_def untouched_def)

lemma update_hit:
  "regmap_update_bits w reg msk val = (0, w1) \<Longrightarrow> untouched w reg \<Longrightarrow>
     regs w1 reg = (regs w reg AND NOT msk) OR (val AND msk) \<and> untouched w1 reg"
  by (auto simp: regmap_update_bits_def Let_def hw_tick_def log_event_def untouched_def)

lemma udelay_frame: "regs (udelay us w) = regs w" "untouched (udelay us w) reg = untouched w reg"
  by (simp_all add: udelay_def log_event_def untouched_def)

lemma WARN_frame: "regs (WARN msg w) = regs w"
  by (simp add: WARN_def log_event_def)

lemma poll_frame:
  "update_config_poll r count w = (x, w') \<Longrightarrow> untouched w reg \<Longrightarrow>
     regs w' reg = regs w reg"
proof (induction count arbitrary: w)
  case 0
  then show ?case by simp
next
  case (Suc count)
  obtain res w1 where rd: "regmap_read w r = (res, w1)" by (cases "regmap_read w r")
  from read_frame [OF rd Suc.prems(2)] have f: "regs w1 reg = regs w reg" "untouched w1 reg"
    by simp_all
  show ?case
  proof (cases "\<exists>cmd. res = Inr cmd \<and> cmd AND CMD_UPDATE \<noteq> 0")
    case True
    with Suc.prems(1) rd have "update_config_poll r count (udelay 1 w1) = (x, w')" by auto
    from Suc.IH [OF this] f show ?thesis by (simp add: udelay_frame)
  next
    case False
    with Suc.prems(1) rd have "w' = w1" by (auto split: sum.splits if_splits)
    with f show ?thesis by simp
  qed
qed

lemma update_config_frame:
  assumes run: "update_config rcg w = (ret, w')"
      and q: "untouched w reg" and ne: "reg \<noteq> cmd_rcgr rcg + CMD_REG"
  shows "regs w' reg = regs w reg"
proof -
  obtain r1 w1 where u: "regmap_update_bits w (cmd_rcgr rcg + CMD_REG) CMD_UPDATE CMD_UPDATE = (r1, w1)"
    by (cases "regmap_update_bits w (cmd_rcgr rcg + CMD_REG) CMD_UPDATE CMD_UPDATE")
  from update_frame [OF u q] ne have f: "regs w1 reg = regs w reg" "untouched w1 reg" by auto
  obtain x w2 where p: "update_config_poll (cmd_rcgr rcg + CMD_REG) 500 w1 = (x, w2)"
    by (cases "update_config_poll (cmd_rcgr rcg + CMD_REG) 500 w1")
  from poll_frame [OF p f(2)] f have g: "regs w2 reg = regs w reg" by simp
  from run u p f g show ?thesis
    by (auto simp: update_config_def Let_def WARN_frame split: if_splits option.splits)
qed

lemma reg_offsets:
  "(a :: u32) + M_REG \<noteq> a + CFG_REG" "a + N_REG \<noteq> a + CFG_REG" "a + D_REG \<noteq> a + CFG_REG"
  "a + CFG_REG \<noteq> a + CMD_REG"
  by (simp_all add: M_REG_def N_REG_def D_REG_def CFG_REG_def CMD_REG_def)

lemma set_rate_mnd_frame:
  assumes run: "set_rate_mnd rcg fe msk w = (ret, w')"
      and q: "untouched w (cmd_rcgr rcg + CFG_REG)"
  shows "regs w' (cmd_rcgr rcg + CFG_REG) = regs w (cmd_rcgr rcg + CFG_REG) \<and>
         untouched w' (cmd_rcgr rcg + CFG_REG)"
proof -
  let ?cfg = "cmd_rcgr rcg + CFG_REG"
  obtain r1 w1 where u1: "regmap_update_bits w (cmd_rcgr rcg + M_REG) msk (ucast (tbl_m fe)) = (r1, w1)"
    by (cases "regmap_update_bits w (cmd_rcgr rcg + M_REG) msk (ucast (tbl_m fe))")
  obtain r2 w2 where u2: "regmap_update_bits w1 (cmd_rcgr rcg + N_REG) msk
      (NOT (ucast (tbl_n fe) - ucast (tbl_m fe))) = (r2, w2)"
    by (cases "regmap_update_bits w1 (cmd_rcgr rcg + N_REG) msk
      (NOT (ucast (tbl_n fe) - ucast (tbl_m fe)))")
  obtain r3 w3 where u3: "regmap_update_bits w2 (cmd_rcgr rcg + D_REG) msk
      (NOT (ucast (tbl_n fe))) = (r3, w3)"
    by (cases "regmap_update_bits w2 (cmd_rcgr rcg + D_REG) msk (NOT (ucast (tbl_n fe)))")
  from update_frame [OF u1 q reg_offsets(1)]
  have f1: "regs w1 ?cfg = regs w ?cfg" "untouched w1 ?cfg" by simp_all
  from update_frame [OF u2 f1(2) reg_offsets(2)] f1
  have f2: "regs w2 ?cfg = regs w ?cfg" "untouched w2 ?cfg" by simp_all
  from update_frame [OF u3 f2(2) reg_offsets(3)] f2
  have f3: "regs w3 ?cfg = regs w ?cfg" "untouched w3 ?cfg" by simp_all
  from run u1 u2 u3 f1 f2 f3 show ?thesis
    by (auto simp: set_rate_mnd_def split: if_splits)
qed

lemma bit_below:
  fixes p :: "'a::len word"
  assumes "unat p < 2 ^ h" "bit p n"
  shows "n < h"
proof -
  from assms(1) have "take_bit h (unat p) = unat p"
    by (simp add: take_bit_nat_eq_self)
  moreover from assms(2) have "bit (unat p) n"
    by (simp add: bit_unsigned_iff)
  ultimately have "bit (take_bit h (unat p)) n" by simp
  then show ?thesis by (simp add: bit_take_bit_iff)
qed

lemma sel_mask: "CFG_SRC_SEL_MASK = push_bit 8 (mask 3)"
  by (simp add: CFG_SRC_SEL_MASK_def CFG_SRC_SEL_SHIFT_def mask_eq_exp_minus_1)

lemma mode_mask: "CFG_MODE_MASK = push_bit 12 (mask 2)"
  by (simp add: CFG_MODE_MASK_def CFG_MODE_SHIFT_def mask_eq_exp_minus_1)

lemma dual_edge: "bit CFG_MODE_DUAL_EDGE n \<longleftrightarrow> n = 13"
proof -
  have "CFG_MODE_DUAL_EDGE = 2 ^ 13"
    by (simp add: CFG_MODE_DUAL_EDGE_def CFG_MODE_SHIFT_def)
  moreover have "bit ((2 :: u32) ^ 13) n \<longleftrightarrow> n = 13"
    by (simp only: bit_exp_iff) (auto simp: possible_bit_word)
  ultimately show ?thesis by simp
qed

lemma cfg_divider_field:
  fixes old de :: u32 and pd pm :: u8
  assumes de: "\<And>n. bit de n \<longleftrightarrow> n = 13" and pd: "unat pd < 2 ^ h" and h: "h \<le> 8"
  defines "msk \<equiv> mask h OR (push_bit 8 (mask 3) OR push_bit 12 (mask 2))"
  defines "val \<equiv> \<lambda>frac. (if frac then (ucast pd OR push_bit 8 (ucast pm)) OR de
                             else ucast pd OR push_bit 8 (ucast pm))"
  defines "new \<equiv> \<lambda>frac. (old AND NOT msk) OR (val frac AND msk)"
  shows "drop_bit 0 (new frac) AND mask h = ucast pd"
proof -
  have b1: "bit pd n \<Longrightarrow> n < h" for n using bit_below [OF pd] by blast
  show ?thesis
    unfolding new_def val_def msk_def using h
    by (intro bit_word_eqI) (auto simp: bit_simps de dest: b1)
qed

lemma cfg_select_field:
  fixes old de :: u32 and pd pm :: u8 and h :: nat
  assumes de: "\<And>n. bit de n \<longleftrightarrow> n = 13" and pm: "unat pm < 2 ^ 3"
  defines "msk \<equiv> mask h OR (push_bit 8 (mask 3) OR push_bit 12 (mask 2))"
  defines "val \<equiv> \<lambda>frac. (if frac then (ucast pd OR push_bit 8 (ucast pm)) OR de
                             else ucast pd OR push_bit 8 (ucast pm))"
  defines "new \<equiv> \<lambda>frac. (old AND NOT msk) OR (val frac AND msk)"
  shows "drop_bit 8 (new frac AND push_bit 8 (mask 3)) = ucast pm"
proof -
  have b2: "bit pm n \<Longrightarrow> n < 3" for n using bit_below [OF pm] by blast
  have b3: "\<not> bit pd (8 + n)" for n
    using bit_imp_le_length [of pd "8 + n"] by auto
  show ?thesis
    unfolding new_def val_def msk_def
    by (intro bit_word_eqI) (auto simp: bit_simps de b3 dest: b2)
qed

lemma cfg_mode_field:
  fixes old de :: u32 and pd pm :: u8 and h :: nat
  assumes de: "\<And>n. bit de n \<longleftrightarrow> n = 13" and pm: "unat pm < 2 ^ 4"
  defines "msk \<equiv> mask h OR (push_bit 8 (mask 3) OR push_bit 12 (mask 2))"
  defines "val \<equiv> \<lambda>frac. (if frac then (ucast pd OR push_bit 8 (ucast pm)) OR de
                             else ucast pd OR push_bit 8 (ucast pm))"
  defines "new \<equiv> \<lambda>frac. (old AND NOT msk) OR (val frac AND msk)"
  shows "drop_bit 12 (new frac AND push_bit 12 (mask 2)) = (if frac then 2 else 0)"
proof -
  have b2: "bit pm n \<Longrightarrow> n < 4" for n using bit_below [OF pm] by blast
  have b3: "\<not> bit pd (12 + n)" for n
    using bit_imp_le_length [of pd "12 + n"] by auto
  have two: "bit (2 :: u32) n \<longleftrightarrow> n = 1" for n
    using bit_push_bit_iff [of 1 "1 :: u32" n] by (auto simp: bit_simps)
  show ?thesis
    unfolding new_def val_def msk_def
    by (intro bit_word_eqI) (auto simp: bit_simps two de b3 dest: b2)
qed

lemma cfg_outside_masks:
  fixes old val msk :: u32
  shows "((old AND NOT msk) OR (val AND msk)) AND NOT msk = old AND NOT msk"
  by (intro bit_word_eqI) (auto simp: bit_simps)

lemma width_mask_Inr:
  "width_mask TYPE('l::len) width = Inr msk \<Longrightarrow> msk = mask (unat width)"
  by (cases "unat width < LENGTH('l)") (auto simp: width_mask_eq, auto simp: width_mask_def BIT_def)

lemma set_rate_cfg_written:
  fixes rcg :: "('l::len) clk_rcg2"
  assumes run: "set_rate_cfg rcg fe w = Inr (0, w')"
      and q: "untouched w (cmd_rcgr rcg + CFG_REG)"
  shows "regs w' (cmd_rcgr rcg + CFG_REG) =
           (regs w (cmd_rcgr rcg + CFG_REG)
              AND NOT (mask (unat (hid_width rcg)) OR (push_bit 8 (mask 3) OR push_bit 12 (mask 2))))
           OR ((if mnd_width rcg \<noteq> 0 \<and> tbl_n fe \<noteq> 0
                then (ucast (pre_div fe) OR push_bit 8 (ucast (parent_map rcg ! unat (src fe))))
                       OR CFG_MODE_DUAL_EDGE
                else ucast (pre_div fe) OR push_bit 8 (ucast (parent_map rcg ! unat (src fe))))
               AND (mask (unat (hid_width rcg)) OR (push_bit 8 (mask 3) OR push_bit 12 (mask 2))))"
proof -
  let ?cfg = "cmd_rcgr rcg + CFG_REG"
  let ?msk = "mask (unat (hid_width rcg)) OR (CFG_SRC_SEL_MASK OR CFG_MODE_MASK) :: u32"
  let ?val = "(if mnd_width rcg \<noteq> 0 \<and> tbl_n fe \<noteq> 0
                then (ucast (pre_div fe) OR push_bit 8 (ucast (parent_map rcg ! unat (src fe))))
                       OR CFG_MODE_DUAL_EDGE
                else ucast (pre_div fe) OR push_bit 8 (ucast (parent_map rcg ! unat (src fe)))) :: u32"
  from run obtain msk0 where m0: "width_mask TYPE('l) (hid_width rcg) = Inr msk0"
    by (auto simp: set_rate_cfg_def split: sum.splits)
  from width_mask_Inr [OF m0] have m1: "msk0 = mask (unat (hid_width rcg))" .
  from run m0 have inb: "unat (src fe) < length (parent_map rcg)"
    by (auto simp: set_rate_cfg_def Let_def split: if_splits)
  obtain r1 w1 where u: "regmap_update_bits w ?cfg ?msk ?val = (r1, w1)"
    by (cases "regmap_update_bits w ?cfg ?msk ?val")
  from run m0 m1 inb u have r1: "r1 = 0" and uc: "update_config rcg w1 = (0, w')"
    by (auto simp: set_rate_cfg_def Let_def CFG_SRC_DIV_SHIFT_def CFG_SRC_SEL_SHIFT_def
        split: if_splits)
  from update_hit [OF u [unfolded r1] q]
  have h: "regs w1 ?cfg = (regs w ?cfg AND NOT ?msk) OR (?val AND ?msk)" "untouched w1 ?cfg"
    by simp_all
  from update_config_frame [OF uc h(2) reg_offsets(4)] h(1)
  show ?thesis by (simp only: sel_mask mode_mask)
qed

lemma do_set_rate_reaches_cfg:
  fixes rcg :: "('l::len) clk_rcg2"
  assumes found: "find_freq (freq_tbl rcg) rate = Inr (Some (i, fe))"
      and run: "do_clk_rcg2_set_rate rcg rate w = Inr (0, w')"
      and quiet: "untouched w (cmd_rcgr rcg + CFG_REG)"
  shows "\<exists>w1. regs w1 (cmd_rcgr rcg + CFG_REG) = regs w (cmd_rcgr rcg + CFG_REG) \<and>
              untouched w1 (cmd_rcgr rcg + CFG_REG) \<and> set_rate_cfg rcg fe w1 = Inr (0, w')"
proof (cases "mnd_width rcg \<noteq> 0 \<and> tbl_n fe \<noteq> 0")
  case True
  with run found obtain msk where mm: "width_mask TYPE('l) (mnd_width rcg) = Inr msk"
    by (auto simp: do_clk_rcg2_set_rate_def split: sum.splits)
  obtain r1 w1 where s: "set_rate_mnd rcg fe msk w = (r1, w1)"
    by (cases "set_rate_mnd rcg fe msk w")
  from run found True mm s have "set_rate_cfg rcg fe w1 = Inr (0, w')"
    by (auto simp: do_clk_rcg2_set_rate_def split: if_splits)
  with set_rate_mnd_frame [OF s quiet] show ?thesis by blast
next
  case False
  with run found have "set_rate_cfg rcg fe w = Inr (0, w')"
    by (auto simp: do_clk_rcg2_set_rate_def)
  with quiet show ?thesis by blast
qed

lemma update_config_poll_numeral:
  "update_config_poll reg (numeral k) w =
     (case regmap_read w reg of
        (Inl ret, w1) \<Rightarrow> (Some ret, w1)
      | (Inr cmd, w1) \<Rightarrow>
          (if cmd AND CMD_UPDATE = 0 then (Some 0, w1)
           else update_config_poll reg (pred_numeral k) (udelay 1 w1)))"
  by (simp add: numeral_eq_Suc)

text \<open>
  C6, as amended. Let \<open>__clk_rcg2_set_rate\<close> return 0 on a matched record, on
  hardware that does not change the config register by itself. Then the config
  register, read back and taken apart as \<open>clk_rcg2_recalc_rate\<close> and
  \<open>clk_rcg2_get_parent\<close> do, holds: \<open>pre_div\<close> in the divider field, if \<open>pre_div\<close>
  fits that field (\<open>hid_width\<close> bits, at most 8); \<open>parent_map[src]\<close> in the select
  field, if it fits the three bits of that field; a mode field equal to 2 (dual edge)
  exactly when \<open>mnd_width\<close> and the record's \<open>n\<close> are nonzero, 0 otherwise, if
  \<open>parent_map[src]\<close> is below 16 and so leaves the mode bits alone. Whatever the
  record, the bits of the config register outside the divider, select and mode masks
  are those it had before.
\<close>

theorem set_rate_round_trip:
  fixes rcg :: "('l::len) clk_rcg2"
  assumes found: "find_freq (freq_tbl rcg) rate = Inr (Some (i, fe))"
      and run: "do_clk_rcg2_set_rate rcg rate w = Inr (0, w')"
      and quiet: "untouched w (cmd_rcgr rcg + CFG_REG)"
  shows "(unat (pre_div fe) < 2 ^ unat (hid_width rcg) \<and> unat (hid_width rcg) \<le> 8 \<longrightarrow>
            drop_bit CFG_SRC_DIV_SHIFT (regs w' (cmd_rcgr rcg + CFG_REG))
              AND mask (unat (hid_width rcg))
            = ucast (pre_div fe))
       \<and> (unat (parent_map rcg ! unat (src fe)) < 8 \<longrightarrow>
            drop_bit CFG_SRC_SEL_SHIFT (regs w' (cmd_rcgr rcg + CFG_REG) AND CFG_SRC_SEL_MASK)
            = ucast (parent_map rcg ! unat (src fe)))
       \<and> (unat (parent_map rcg ! unat (src fe)) < 16 \<longrightarrow>
            drop_bit CFG_MODE_SHIFT (regs w' (cmd_rcgr rcg + CFG_REG) AND CFG_MODE_MASK)
            = (if mnd_width rcg \<noteq> 0 \<and> tbl_n fe \<noteq> 0 then 2 else 0))
       \<and> regs w' (cmd_rcgr rcg + CFG_REG)
             AND NOT (mask (unat (hid_width rcg)) OR (CFG_SRC_SEL_MASK OR CFG_MODE_MASK))
           = regs w (cmd_rcgr rcg + CFG_REG)
             AND NOT (mask (unat (hid_width rcg)) OR (CFG_SRC_SEL_MASK OR CFG_MODE_MASK))"
proof -
  let ?cfg = "cmd_rcgr rcg + CFG_REG"
  let ?frac = "mnd_width rcg \<noteq> 0 \<and> tbl_n fe \<noteq> 0"
  from do_set_rate_reaches_cfg [OF found run quiet]
  obtain w1 where w1: "regs w1 ?cfg = regs w ?cfg" "untouched w1 ?cfg"
    "set_rate_cfg rcg fe w1 = Inr (0, w')" by blast
  note wr = set_rate_cfg_written [OF w1(3) w1(2), unfolded w1(1)]
  have d: "drop_bit CFG_SRC_DIV_SHIFT (regs w' ?cfg) AND mask (unat (hid_width rcg))
            = ucast (pre_div fe)"
    if "unat (pre_div fe) < 2 ^ unat (hid_width rcg) \<and> unat (hid_width rcg) \<le> 8"
  proof -
    from that have f: "unat (pre_div fe) < 2 ^ unat (hid_width rcg)" "unat (hid_width rcg) \<le> 8"
      by simp_all
    from cfg_divider_field [OF dual_edge f, where old = "regs w ?cfg"
        and pm = "parent_map rcg ! unat (src fe)" and frac = ?frac, folded wr]
    show ?thesis by (simp add: CFG_SRC_DIV_SHIFT_def)
  qed
  have s: "drop_bit CFG_SRC_SEL_SHIFT (regs w' ?cfg AND CFG_SRC_SEL_MASK)
            = ucast (parent_map rcg ! unat (src fe))"
    if "unat (parent_map rcg ! unat (src fe)) < 8"
  proof -
    from that have f: "unat (parent_map rcg ! unat (src fe)) < 2 ^ 3" by simp
    from cfg_select_field [OF dual_edge f, where old = "regs w ?cfg"
        and h = "unat (hid_width rcg)" and pd = "pre_div fe" and frac = ?frac, folded wr]
    show ?thesis by (simp add: CFG_SRC_SEL_SHIFT_def sel_mask)
  qed
  have m: "drop_bit CFG_MODE_SHIFT (regs w' ?cfg AND CFG_MODE_MASK)
            = (if ?frac then 2 else 0)"
    if "unat (parent_map rcg ! unat (src fe)) < 16"
  proof -
    from that have f: "unat (parent_map rcg ! unat (src fe)) < 2 ^ 4" by simp
    from cfg_mode_field [OF dual_edge f, where old = "regs w ?cfg"
        and h = "unat (hid_width rcg)" and pd = "pre_div fe" and frac = ?frac, folded wr]
    show ?thesis by (simp add: CFG_MODE_SHIFT_def mode_mask)
  qed
  have r: "regs w' ?cfg
             AND NOT (mask (unat (hid_width rcg)) OR (CFG_SRC_SEL_MASK OR CFG_MODE_MASK))
           = regs w ?cfg
             AND NOT (mask (unat (hid_width rcg)) OR (CFG_SRC_SEL_MASK OR CFG_MODE_MASK))"
    unfolding wr sel_mask mode_mask by (rule cfg_outside_masks)
  from d s m r show ?thesis by blast
qed

theorem set_rate_round_trip_witness:
  "map_sum id fst (do_clk_rcg2_set_rate ex_rcg 50000000 ex_world) = Inr 0
   \<and> regs (snd (projr (do_clk_rcg2_set_rate ex_rcg 50000000 ex_world))) 0x1908 AND mask 5 = 3
   \<and> drop_bit 8 (regs (snd (projr (do_clk_rcg2_set_rate ex_rcg 50000000 ex_world))) 0x1908 AND 0x700) = 1
   \<and> drop_bit 12 (regs (snd (projr (do_clk_rcg2_set_rate ex_rcg 50000000 ex_world))) 0x1908 AND 0x3000) = 2
   \<and> regs (snd (projr (do_clk_rcg2_set_rate ex_rcg 50000000 ex_world))) 0x1908 AND NOT 0x371f = 0"
proof -
  let ?fe = "\<lparr>freq = 100000000, src = 1, pre_div = 3, tbl_m = 1, tbl_n = 2\<rparr> :: 32 freq_tbl"
  have ret: "map_sum id fst (do_clk_rcg2_set_rate ex_rcg 50000000 ex_world) = Inr 0"
    by (simp add: model_defs example_defs update_config_poll_numeral)
  then obtain w' where run: "do_clk_rcg2_set_rate ex_rcg 50000000 ex_world = Inr (0, w')"
    by (cases "do_clk_rcg2_set_rate ex_rcg 50000000 ex_world") auto
  have found: "find_freq (freq_tbl ex_rcg) 50000000 = Inr (Some (1, ?fe))"
    by (simp add: find_freq_def ex_rcg_def ex_tbl_def)
  have quiet: "untouched ex_world (cmd_rcgr ex_rcg + CFG_REG)"
    by (simp add: untouched_def ex_world_def ex_rcg_def CFG_REG_def)
  have fits: "unat (pre_div ?fe) < 2 ^ unat (hid_width ex_rcg) \<and> unat (hid_width ex_rcg) \<le> 8"
    "unat (parent_map ex_rcg ! unat (src ?fe)) < 8"
    "unat (parent_map ex_rcg ! unat (src ?fe)) < 16"
    by (simp_all add: ex_rcg_def)
  note t = set_rate_round_trip [OF found run quiet]
  note t1 = t [THEN conjunct1, THEN mp, OF fits(1)]
  note t2 = t [THEN conjunct2, THEN conjunct1, THEN mp, OF fits(2)]
  note t3 = t [THEN conjunct2, THEN conjunct2, THEN conjunct1, THEN mp, OF fits(3)]
  note t4 = t [THEN conjunct2, THEN conjunct2, THEN conjunct2]
  have msk: "(mask 5 OR (CFG_SRC_SEL_MASK OR CFG_MODE_MASK) :: u32) = 0x371f"
    by (simp add: CFG_SRC_SEL_MASK_def CFG_MODE_MASK_def CFG_SRC_SEL_SHIFT_def CFG_MODE_SHIFT_def
        mask_eq_exp_minus_1)
  have reg: "cmd_rcgr ex_rcg + CFG_REG = 0x1908" "unat (hid_width ex_rcg) = 5"
    by (simp_all add: ex_rcg_def CFG_REG_def)
  from t1 have a: "regs w' 0x1908 AND mask 5 = 3"
    by (simp add: reg CFG_SRC_DIV_SHIFT_def)
  from t2 have b: "drop_bit 8 (regs w' 0x1908 AND 0x700) = 1"
    by (simp add: reg) (simp add: CFG_SRC_SEL_MASK_def CFG_SRC_SEL_SHIFT_def ex_rcg_def)
  from t3 have c: "drop_bit 12 (regs w' 0x1908 AND 0x3000) = 2"
    by (simp add: reg) (simp add: CFG_MODE_MASK_def CFG_MODE_SHIFT_def ex_rcg_def)
  from t4 have d: "regs w' 0x1908 AND NOT 0x371f = 0"
    by (simp add: reg msk) (simp add: ex_world_def)
  from ret run a b c d show ?thesis by simp
qed

text \<open>
  C6 as stated fails: a record with \<open>pre_div = 33\<close> on a five-bit divider field reads
  back as 1; a mapped parent \<open>0x1f\<close> reads back from the select field as 7 and sets
  the mode field to 1 although the record asks for no fractional mode; and on a divider
  field of nine bits the field read back holds the select bits too, \<open>0x103\<close> for a
  \<open>pre_div\<close> of 3.
\<close>

theorem set_rate_round_trip_truncates:
  "find_freq (freq_tbl wide_rcg) 50000000 = Inr (Some (0, tbl_wide ! 0))
   \<and> pre_div (tbl_wide ! 0) = 33 \<and> tbl_n (tbl_wide ! 0) = 0
   \<and> parent_map wide_rcg ! unat (src (tbl_wide ! 0)) = 0x1f
   \<and> untouched ex_world (cmd_rcgr wide_rcg + CFG_REG)
   \<and> map_sum id (\<lambda>(ret, w).
        (ret,
         drop_bit CFG_SRC_DIV_SHIFT (regs w (cmd_rcgr wide_rcg + CFG_REG))
           AND mask (unat (hid_width wide_rcg)),
         drop_bit CFG_SRC_SEL_SHIFT (regs w (cmd_rcgr wide_rcg + CFG_REG) AND CFG_SRC_SEL_MASK),
         drop_bit CFG_MODE_SHIFT (regs w (cmd_rcgr wide_rcg + CFG_REG) AND CFG_MODE_MASK)))
       (do_clk_rcg2_set_rate wide_rcg 50000000 ex_world) = Inr (0, 1, 7, 1)
   \<and> find_freq (freq_tbl nine_rcg) 50000000 = Inr (Some (1, ex_tbl ! 1))
   \<and> pre_div (ex_tbl ! 1) = 3 \<and> hid_width nine_rcg = 9
   \<and> untouched ex_world (cmd_rcgr nine_rcg + CFG_REG)
   \<and> map_sum id (\<lambda>(ret, w).
        (ret,
         drop_bit CFG_SRC_DIV_SHIFT (regs w (cmd_rcgr nine_rcg + CFG_REG))
           AND mask (unat (hid_width nine_rcg))))
       (do_clk_rcg2_set_rate nine_rcg 50000000 ex_world) = Inr (0, 0x103)"
proof -
  have a: "find_freq (freq_tbl wide_rcg) 50000000 = Inr (Some (0, tbl_wide ! 0))"
    "pre_div (tbl_wide ! 0) = 33" "tbl_n (tbl_wide ! 0) = 0"
    "parent_map wide_rcg ! unat (src (tbl_wide ! 0)) = 0x1f"
    by (simp_all add: find_freq_def wide_rcg_def tbl_wide_def ex_rcg_def)
  have b: "untouched ex_world (cmd_rcgr wide_rcg + CFG_REG)"
    by (simp add: untouched_def ex_world_def wide_rcg_def ex_rcg_def CFG_REG_def)
  have c: "map_sum id (\<lambda>(ret, w).
        (ret,
         drop_bit CFG_SRC_DIV_SHIFT (regs w (cmd_rcgr wide_rcg + CFG_REG))
           AND mask (unat (hid_width wide_rcg)),
         drop_bit CFG_SRC_SEL_SHIFT (regs w (cmd_rcgr wide_rcg + CFG_REG) AND CFG_SRC_SEL_MASK),
         drop_bit CFG_MODE_SHIFT (regs w (cmd_rcgr wide_rcg + CFG_REG) AND CFG_MODE_MASK)))
       (do_clk_rcg2_set_rate wide_rcg 50000000 ex_world) = Inr (0, 1, 7, 1)"
    by (simp add: model_defs example_defs wide_rcg_def tbl_wide_def update_config_poll_numeral
        mask_eq_exp_minus_1)
  have d: "find_freq (freq_tbl nine_rcg) 50000000 = Inr (Some (1, ex_tbl ! 1))"
    "pre_div (ex_tbl ! 1) = 3" "hid_width nine_rcg = 9"
    by (simp_all add: find_freq_def nine_rcg_def ex_tbl_def ex_rcg_def)
  have e: "untouched ex_world (cmd_rcgr nine_rcg + CFG_REG)"
    by (simp add: untouched_def ex_world_def nine_rcg_def ex_rcg_def CFG_REG_def)
  have f: "map_sum id (\<lambda>(ret, w).
        (ret,
         drop_bit CFG_SRC_DIV_SHIFT (regs w (cmd_rcgr nine_rcg + CFG_REG))
           AND mask (unat (hid_width nine_rcg))))
       (do_clk_rcg2_set_rate nine_rcg 50000000 ex_world) = Inr (0, 0x103)"
    by (simp add: model_defs example_defs nine_rcg_def update_config_poll_numeral
        mask_eq_exp_minus_1)
  from a b c d e f show ?thesis by simp
qed

section \<open>No matching frequency\<close>

text \<open>
  C7. When the table is absent, or every record before the terminating one has a
  frequency below the requested rate, setting the rate returns \<open>-EINVAL\<close> and leaves
  the world as it was: no register is accessed, nothing is recorded. So it is on the
  table of a single 19.2 MHz record at a request of 50 MHz.
\<close>

theorem set_rate_no_match:
  fixes rcg :: "('l::len) clk_rcg2"
  assumes "freq_tbl rcg = None \<or>
           (\<exists>tbl. freq_tbl rcg = Some tbl \<and> terminated tbl \<and> (\<forall>e \<in> set (entries tbl). freq e < rate))"
  shows "do_clk_rcg2_set_rate rcg rate w = Inr (- EINVAL, w)
       \<and> clk_rcg2_set_rate rcg rate parent_rate w = Inr (- EINVAL, w)
       \<and> clk_rcg2_set_rate_and_parent rcg rate parent_rate index w = Inr (- EINVAL, w)"
proof -
  from assms have "find_freq (freq_tbl rcg) rate = Inr None"
    by (auto simp: find_freq_def find_freq_from_None)
  then show ?thesis
    by (simp add: do_clk_rcg2_set_rate_def clk_rcg2_set_rate_def clk_rcg2_set_rate_and_parent_def)
qed

theorem set_rate_no_match_witness:
  "do_clk_rcg2_set_rate xo_rcg 50000000 ex_world = Inr (- 22, ex_world)
   \<and> clk_rcg2_set_rate xo_rcg 50000000 19200000 ex_world = Inr (- 22, ex_world)
   \<and> clk_rcg2_set_rate_and_parent xo_rcg 50000000 19200000 0 ex_world = Inr (- 22, ex_world)
   \<and> do_clk_rcg2_set_rate (ex_rcg\<lparr>freq_tbl := None\<rparr>) 50000000 ex_world = Inr (- 22, ex_world)"
proof -
  have "terminated tbl_xo" by (simp add: terminated_def tbl_xo_def)
  moreover have "\<forall>e \<in> set (entries tbl_xo). freq e < 50000000"
    by (simp add: entries_def tbl_xo_def)
  ultimately have h: "freq_tbl xo_rcg = None \<or>
           (\<exists>tbl. freq_tbl xo_rcg = Some tbl \<and> terminated tbl \<and> (\<forall>e \<in> set (entries tbl). freq e < 50000000))"
    by (simp add: xo_rcg_def)
  have h2: "freq_tbl (ex_rcg\<lparr>freq_tbl := None\<rparr>) = None \<or>
           (\<exists>tbl. freq_tbl (ex_rcg\<lparr>freq_tbl := None\<rparr>) = Some tbl \<and> terminated tbl \<and> (\<forall>e \<in> set (entries tbl). freq e < 50000000))"
    by simp
  from set_rate_no_match [OF h, of ex_world 19200000 0] set_rate_no_match [OF h2, of ex_world 0 0]
  show ?thesis by (simp add: EINVAL_def)
qed

section \<open>Rate negotiation\<close>

lemma pow_le_ulong: "32 \<le> LENGTH('l::len) \<Longrightarrow> (2::nat) ^ 32 \<le> 2 ^ LENGTH('l)"
  by (rule power_increasing) simp_all

lemma determine_stage1:
  fixes rate :: "'l::len word"
  assumes L: "32 \<le> LENGTH('l)"
  shows "unat ((rate div 2) * (ucast (pd :: u8) + 1))
           = (unat rate div 2) * (unat pd + 1) mod 2 ^ LENGTH('l)"
proof -
  from pow_le_ulong [OF L] have big: "(4294967296::nat) \<le> 2 ^ LENGTH('l)" by simp
  have pd: "unat pd < 256" using unsigned_less [of pd] by simp
  have up: "unat (ucast pd :: 'l word) = unat pd"
    using L by (simp add: unat_ucast_up)
  have "unat (ucast pd + 1 :: 'l word) = (unat pd + 1) mod 2 ^ LENGTH('l)"
    by (simp add: unat_word_ariths up)
  also have "\<dots> = unat pd + 1" using pd big by simp
  finally have s: "unat (ucast pd + 1 :: 'l word) = unat pd + 1" .
  have two: "unat (2 :: 'l word) = 2"
    using big by (simp add: unat_numeral take_bit_eq_mod)
  have d: "unat (rate div 2) = unat rate div 2"
    by (simp only: unat_div two)
  have "unat ((rate div 2) * (ucast pd + 1))
          = unat (rate div 2) * unat (ucast pd + 1 :: 'l word) mod 2 ^ LENGTH('l)"
    by (simp only: unat_word_ariths)
  then show ?thesis
    by (simp only: d s)
qed

lemma determine_stage2:
  fixes rate1 :: "'l::len word"
  assumes "LENGTH('l) \<le> 64"
  shows "unat (ucast (((ucast rate1 :: u64) * ucast (n :: u16)) div ucast (m :: u16)) :: 'l word)
       = (unat rate1 * unat n mod 2 ^ 64) div unat m mod 2 ^ LENGTH('l)"
proof -
  have a: "unat (ucast rate1 :: u64) = unat rate1"
    using assms by (simp add: unat_ucast_up)
  have b: "unat (ucast m :: u64) = unat m" "unat (ucast n :: u64) = unat n"
    by (simp_all add: unat_ucast_up)
  have "unat ((ucast rate1 :: u64) * ucast n) = unat rate1 * unat n mod 2 ^ 64"
    by (simp add: unat_word_ariths a b)
  then have "unat (((ucast rate1 :: u64) * ucast n) div ucast m)
               = (unat rate1 * unat n mod 2 ^ 64) div unat m"
    by (simp only: unat_div b)
  then show ?thesis
    by (simp only: unat_ucast_mod)
qed

lemma determine_exact:
  fixes rate :: "'l::len word" and pd :: u8 and m n :: u16
  assumes o1: "pre_scaled (unat rate) (unat pd) < 2 ^ LENGTH('l)"
      and o2: "n \<noteq> 0 \<longrightarrow> pre_scaled (unat rate) (unat pd) * unat n < 2 ^ 64"
      and o3: "parent_rate_to_request (unat rate) (unat pd) (unat m) (unat n) < 2 ^ LENGTH('l)"
  shows "(let r1 = (if pd \<noteq> 0 then (unat rate div 2) * (unat pd + 1) mod 2 ^ LENGTH('l)
                    else unat rate)
          in if n \<noteq> 0 then (r1 * unat n mod 2 ^ 64) div unat m mod 2 ^ LENGTH('l) else r1)
         = parent_rate_to_request (unat rate) (unat pd) (unat m) (unat n)"
proof -
  have z: "(unat pd = 0) = (pd = 0)" "(unat n = 0) = (n = 0)" by (simp_all add: unat_eq_0)
  have s1: "(if pd \<noteq> 0 then (unat rate div 2) * (unat pd + 1) mod 2 ^ LENGTH('l) else unat rate)
              = pre_scaled (unat rate) (unat pd)"
  proof (cases "pd = 0")
    case True
    then show ?thesis by (simp add: pre_scaled_def)
  next
    case False
    with o1 z(1) show ?thesis by (simp add: pre_scaled_def)
  qed
  show ?thesis
  proof (cases "n = 0")
    case True
    then show ?thesis by (simp add: s1 parent_rate_to_request_def Let_def)
  next
    case False
    with o2 have b: "pre_scaled (unat rate) (unat pd) * unat n < 2 ^ 64" by simp
    from False z(2) o3
    have c: "pre_scaled (unat rate) (unat pd) * unat n div unat m < 2 ^ LENGTH('l)"
      by (simp add: parent_rate_to_request_def Let_def)
    from False z(2) b c show ?thesis
      by (simp add: s1 parent_rate_to_request_def Let_def)
  qed
qed

lemma sint_small:
  fixes w :: "'l::len word"
  assumes "unat w < 2 ^ (LENGTH('l) - 1)"
  shows "sint w = int (unat w)"
proof -
  from assms have "int (unat w) < int (2 ^ (LENGTH('l) - 1))" by (simp only: of_nat_less_iff)
  then have u: "uint w < 2 ^ (LENGTH('l) - 1)" by simp
  have l: "- (2 ^ (LENGTH('l) - 1)) \<le> uint w"
    by (rule order_trans [of _ 0]) simp_all
  have "sint w = signed_take_bit (LENGTH('l) - 1) (uint w)" by (simp add: sint_uint)
  also have "\<dots> = uint w" using l u by (intro signed_take_bit_int_eq_self)
  finally show ?thesis by simp
qed

lemma determine_propagated:
  fixes rcg :: "('l::len) clk_rcg2"
  assumes L: "32 \<le> LENGTH('l)" "LENGTH('l) \<le> 64"
      and found: "find_freq f rate = Inr (Some (i, fe))"
      and flag: "clk_flags (hw_clk rcg) AND CLK_SET_RATE_PARENT \<noteq> 0"
      and m: "tbl_n fe \<noteq> 0 \<longrightarrow> tbl_m fe \<noteq> 0"
  shows "\<exists>pr. freq_tbl_determine_rate rcg f rate p_rate p
                = Inr (freq fe, pr, clk_parent_by_index (hw_clk rcg) (src fe)) \<and>
              unat pr =
                (let r1 = (if pre_div fe \<noteq> 0
                           then (unat rate div 2) * (unat (pre_div fe) + 1) mod 2 ^ LENGTH('l)
                           else unat rate)
                 in if tbl_n fe \<noteq> 0
                    then (r1 * unat (tbl_n fe) mod 2 ^ 64) div unat (tbl_m fe) mod 2 ^ LENGTH('l)
                    else r1)"
  using found flag m L
  by (auto simp: freq_tbl_determine_rate_def Let_def determine_stage1 determine_stage2)

lemma determine_queried:
  assumes found: "find_freq f rate = Inr (Some (i, fe))"
      and flag: "clk_flags (hw_clk rcg) AND CLK_SET_RATE_PARENT = 0"
  shows "freq_tbl_determine_rate rcg f rate p_rate p
           = Inr (freq fe, clk_rate (hw_clk rcg) (clk_parent_by_index (hw_clk rcg) (src fe)),
                  clk_parent_by_index (hw_clk rcg) (src fe))"
  using found flag by (simp add: freq_tbl_determine_rate_def Let_def)

lemma einval_long:
  assumes L: "32 \<le> LENGTH('l::len)"
  shows "sint (word_of_int (- EINVAL) :: 'l word) = - 22"
proof -
  have "(22 :: int) < 2 ^ (LENGTH('l) - 1)"
  proof -
    have "(2::int) ^ 5 \<le> 2 ^ (LENGTH('l) - 1)" using L by (intro power_increasing) simp_all
    then show ?thesis by simp
  qed
  then have "signed_take_bit (LENGTH('l) - 1) (- 22 :: int) = - 22"
    by (intro signed_take_bit_int_eq_self) simp_all
  then show ?thesis
    by (simp only: EINVAL_def sint_sbintrunc')
qed

text \<open>
  C8, as amended. When the lookup fails, \<open>_freq_tbl_determine_rate\<close> returns \<open>-EINVAL\<close>
  and writes nothing. When it finds a record (whose \<open>m\<close> is nonzero if parent-rate
  propagation is permitted and \<open>n\<close> is nonzero), it returns the bits of the record's
  \<open>freq\<close>, which read as the \<open>long\<close> it returns are \<open>freq\<close> if \<open>freq\<close> is below half
  the range of \<open>unsigned long\<close>; it reports the parent of index \<open>src\<close>; and it reports
  as parent rate: with \<open>CLK_SET_RATE_PARENT\<close> set, the requested rate inverted in the
  arithmetic of the code (if \<open>pre_div\<close> is nonzero, halved, rounding down, then
  multiplied by \<open>pre_div + 1\<close> in \<open>unsigned long\<close>; if \<open>n\<close> is nonzero, multiplied by
  \<open>n\<close> in 64 bits, divided by \<open>m\<close> and stored as \<open>unsigned long\<close>), which is the
  spec's \<open>rate /= 2; rate *= preDivider + 1; rate = rate * n / m\<close> if the scaled rate
  and the result fit \<open>unsigned long\<close> and the product fits 64 bits; otherwise the
  parent's current rate. \<open>clk_rcg2_determine_rate\<close> is this function on the clock's
  own table.
\<close>

theorem freq_tbl_determine_rate_result:
  fixes rcg :: "('l::len) clk_rcg2"
  assumes L: "32 \<le> LENGTH('l)" "LENGTH('l) \<le> 64"
  shows "(find_freq f rate = Inr None \<longrightarrow>
            freq_tbl_determine_rate rcg f rate p_rate p = Inr (word_of_int (- EINVAL), p_rate, p) \<and>
            sint (word_of_int (- EINVAL) :: 'l word) = - 22)
       \<and> (\<forall>i fe. find_freq f rate = Inr (Some (i, fe)) \<and>
                  (clk_flags (hw_clk rcg) AND CLK_SET_RATE_PARENT \<noteq> 0 \<and> tbl_n fe \<noteq> 0
                     \<longrightarrow> tbl_m fe \<noteq> 0) \<longrightarrow>
            (\<exists>ret pr. freq_tbl_determine_rate rcg f rate p_rate p
                     = Inr (ret, pr, clk_parent_by_index (hw_clk rcg) (src fe)) \<and>
                  ret = freq fe \<and>
                  (unat (freq fe) < 2 ^ (LENGTH('l) - 1) \<longrightarrow> sint ret = int (unat (freq fe))) \<and>
                  (if clk_flags (hw_clk rcg) AND CLK_SET_RATE_PARENT \<noteq> 0
                   then unat pr =
                          (let r1 = (if pre_div fe \<noteq> 0
                                     then (unat rate div 2) * (unat (pre_div fe) + 1)
                                            mod 2 ^ LENGTH('l)
                                     else unat rate)
                           in if tbl_n fe \<noteq> 0
                              then (r1 * unat (tbl_n fe) mod 2 ^ 64) div unat (tbl_m fe)
                                     mod 2 ^ LENGTH('l)
                              else r1) \<and>
                        (pre_scaled (unat rate) (unat (pre_div fe)) < 2 ^ LENGTH('l) \<and>
                         (tbl_n fe \<noteq> 0 \<longrightarrow>
                            pre_scaled (unat rate) (unat (pre_div fe)) * unat (tbl_n fe) < 2 ^ 64) \<and>
                         parent_rate_to_request (unat rate) (unat (pre_div fe))
                            (unat (tbl_m fe)) (unat (tbl_n fe)) < 2 ^ LENGTH('l)
                         \<longrightarrow> unat pr = parent_rate_to_request (unat rate) (unat (pre_div fe))
                                           (unat (tbl_m fe)) (unat (tbl_n fe)))
                   else pr = clk_rate (hw_clk rcg) (clk_parent_by_index (hw_clk rcg) (src fe)))))
       \<and> clk_rcg2_determine_rate rcg rate p_rate p
           = freq_tbl_determine_rate rcg (freq_tbl rcg) rate p_rate p"
proof (intro conjI impI allI)
  assume "find_freq f rate = Inr None"
  then show "freq_tbl_determine_rate rcg f rate p_rate p = Inr (word_of_int (- EINVAL), p_rate, p)"
    by (simp add: freq_tbl_determine_rate_def)
next
  show "sint (word_of_int (- EINVAL) :: 'l word) = - 22" by (rule einval_long [OF L(1)])
next
  fix i fe
  assume h: "find_freq f rate = Inr (Some (i, fe)) \<and>
             (clk_flags (hw_clk rcg) AND CLK_SET_RATE_PARENT \<noteq> 0 \<and> tbl_n fe \<noteq> 0 \<longrightarrow> tbl_m fe \<noteq> 0)"
  then have found: "find_freq f rate = Inr (Some (i, fe))" by simp
  let ?par = "clk_parent_by_index (hw_clk rcg) (src fe)"
  let ?wrapped = "(let r1 = (if pre_div fe \<noteq> 0
                             then (unat rate div 2) * (unat (pre_div fe) + 1) mod 2 ^ LENGTH('l)
                             else unat rate)
                   in if tbl_n fe \<noteq> 0
                      then (r1 * unat (tbl_n fe) mod 2 ^ 64) div unat (tbl_m fe) mod 2 ^ LENGTH('l)
                      else r1)"
  let ?exact = "parent_rate_to_request (unat rate) (unat (pre_div fe))
                  (unat (tbl_m fe)) (unat (tbl_n fe))"
  let ?fits = "pre_scaled (unat rate) (unat (pre_div fe)) < 2 ^ LENGTH('l) \<and>
               (tbl_n fe \<noteq> 0 \<longrightarrow>
                  pre_scaled (unat rate) (unat (pre_div fe)) * unat (tbl_n fe) < 2 ^ 64) \<and>
               ?exact < 2 ^ LENGTH('l)"
  have long: "unat (freq fe) < 2 ^ (LENGTH('l) - 1) \<longrightarrow> sint (freq fe) = int (unat (freq fe))"
    by (simp add: sint_small)
  have ex: "?fits \<longrightarrow> ?wrapped = ?exact"
  proof
    assume fits: ?fits
    show "?wrapped = ?exact"
      by (rule determine_exact) (use fits in simp_all)
  qed
  show "\<exists>ret pr. freq_tbl_determine_rate rcg f rate p_rate p = Inr (ret, pr, ?par) \<and>
                  ret = freq fe \<and>
                  (unat (freq fe) < 2 ^ (LENGTH('l) - 1) \<longrightarrow> sint ret = int (unat (freq fe))) \<and>
                  (if clk_flags (hw_clk rcg) AND CLK_SET_RATE_PARENT \<noteq> 0
                   then unat pr = ?wrapped \<and> (?fits \<longrightarrow> unat pr = ?exact)
                   else pr = clk_rate (hw_clk rcg) ?par)"
  proof (cases "clk_flags (hw_clk rcg) AND CLK_SET_RATE_PARENT = 0")
    case True
    from determine_queried [OF found True, of p_rate p] long True show ?thesis by simp
  next
    case False
    with h have m: "tbl_n fe \<noteq> 0 \<longrightarrow> tbl_m fe \<noteq> 0" by simp
    from determine_propagated [OF L found False m, of p_rate p]
    obtain pr where pr: "freq_tbl_determine_rate rcg f rate p_rate p = Inr (freq fe, pr, ?par)"
      "unat pr = ?wrapped" by blast
    from ex pr(2) have "?fits \<longrightarrow> unat pr = ?exact" by simp
    with pr long False show ?thesis by simp
  qed
next
  show "clk_rcg2_determine_rate rcg rate p_rate p
           = freq_tbl_determine_rate rcg (freq_tbl rcg) rate p_rate p"
    by (simp add: clk_rcg2_determine_rate_def)
qed

theorem freq_tbl_determine_rate_result_witness:
  "map_sum id (\<lambda>(ret, pr, q). (sint ret, unat pr, q))
       (freq_tbl_determine_rate prop_rcg (Some ex_tbl) 50000000 0 None)
     = Inr (100000000, 200000000, Some 1)
   \<and> parent_rate_to_request 50000000 3 1 2 = 200000000
   \<and> freq_tbl_determine_rate ex_rcg (Some ex_tbl) 50000000 0 None
     = Inr (100000000, 800000000, Some 1)
   \<and> map_sum id (\<lambda>(ret, pr, q). (sint ret, pr, q))
       (freq_tbl_determine_rate ex_rcg (Some ex_tbl) 200000000 7 None) = Inr (- 22, 7, None)
   \<and> clk_rcg2_determine_rate prop_rcg 50000000 0 None = Inr (100000000, 200000000, Some 1)"
proof -
  let ?fe = "\<lparr>freq = 100000000, src = 1, pre_div = 3, tbl_m = 1, tbl_n = 2\<rparr> :: 32 freq_tbl"
  have L: "32 \<le> LENGTH(32)" "LENGTH(32) \<le> 64" by simp_all
  have found: "find_freq (Some ex_tbl) (50000000 :: 32 word) = Inr (Some (1, ?fe))"
    by (simp add: find_freq_def ex_tbl_def)
  have none: "find_freq (Some ex_tbl) (200000000 :: 32 word) = Inr None"
    by (simp add: find_freq_def ex_tbl_def)
  have m: "tbl_m ?fe \<noteq> 0" by simp
  have pv: "parent_rate_to_request 50000000 3 1 2 = 200000000"
    by (simp add: parent_rate_to_request_def pre_scaled_def)
  have fits: "pre_scaled (unat (50000000 :: 32 word)) (unat (pre_div ?fe)) < 2 ^ LENGTH(32) \<and>
     (tbl_n ?fe \<noteq> 0 \<longrightarrow>
        pre_scaled (unat (50000000 :: 32 word)) (unat (pre_div ?fe)) * unat (tbl_n ?fe) < 2 ^ 64) \<and>
     parent_rate_to_request (unat (50000000 :: 32 word)) (unat (pre_div ?fe))
        (unat (tbl_m ?fe)) (unat (tbl_n ?fe)) < 2 ^ LENGTH(32)"
    by (simp add: parent_rate_to_request_def pre_scaled_def)
  have small: "unat (freq ?fe) < 2 ^ (LENGTH(32) - 1)" by simp
  have flag: "clk_flags (hw_clk prop_rcg) AND CLK_SET_RATE_PARENT \<noteq> 0"
    by (simp add: prop_rcg_def prop_clk_def ex_rcg_def ex_clk_def CLK_SET_RATE_PARENT_def)
  note t1 = freq_tbl_determine_rate_result [OF L, of "Some ex_tbl" 50000000 prop_rcg 0 None]
  note t2 = freq_tbl_determine_rate_result [OF L, of "Some ex_tbl" 50000000 ex_rcg 0 None]
  note t3 = freq_tbl_determine_rate_result [OF L, of "Some ex_tbl" 200000000 ex_rcg 7 None]
  from t1 [THEN conjunct2, THEN conjunct1, THEN spec, THEN spec, THEN mp, of 1 ?fe] found m
  obtain ret pr where pr: "freq_tbl_determine_rate prop_rcg (Some ex_tbl) 50000000 0 None
      = Inr (ret, pr, clk_parent_by_index (hw_clk prop_rcg) (src ?fe))"
    "unat (freq ?fe) < 2 ^ (LENGTH(32) - 1) \<longrightarrow> sint ret = int (unat (freq ?fe))"
    "ret = freq ?fe"
    "if clk_flags (hw_clk prop_rcg) AND CLK_SET_RATE_PARENT \<noteq> 0
     then unat pr =
            (let r1 = (if pre_div ?fe \<noteq> 0
                       then (unat (50000000 :: 32 word) div 2) * (unat (pre_div ?fe) + 1)
                              mod 2 ^ LENGTH(32)
                       else unat (50000000 :: 32 word))
             in if tbl_n ?fe \<noteq> 0
                then (r1 * unat (tbl_n ?fe) mod 2 ^ 64) div unat (tbl_m ?fe) mod 2 ^ LENGTH(32)
                else r1) \<and>
          (pre_scaled (unat (50000000 :: 32 word)) (unat (pre_div ?fe)) < 2 ^ LENGTH(32) \<and>
           (tbl_n ?fe \<noteq> 0 \<longrightarrow>
              pre_scaled (unat (50000000 :: 32 word)) (unat (pre_div ?fe)) * unat (tbl_n ?fe)
                < 2 ^ 64) \<and>
           parent_rate_to_request (unat (50000000 :: 32 word)) (unat (pre_div ?fe))
              (unat (tbl_m ?fe)) (unat (tbl_n ?fe)) < 2 ^ LENGTH(32)
           \<longrightarrow> unat pr = parent_rate_to_request (unat (50000000 :: 32 word)) (unat (pre_div ?fe))
                             (unat (tbl_m ?fe)) (unat (tbl_n ?fe)))
     else pr = clk_rate (hw_clk prop_rcg) (clk_parent_by_index (hw_clk prop_rcg) (src ?fe))"
    by blast
  note e = pr(4) [unfolded if_P [OF flag], THEN conjunct2, THEN mp, OF fits]
  then have pr2: "unat pr = 200000000"
    by (simp add: parent_rate_to_request_def pre_scaled_def)
  from pr(2) small have sr: "sint ret = 100000000" by simp
  have par: "clk_parent_by_index (hw_clk prop_rcg) (src ?fe) = Some 1"
    by (simp add: prop_rcg_def prop_clk_def ex_rcg_def ex_clk_def)
  from pr(1) sr pr2 par
  have a: "map_sum id (\<lambda>(ret, pr, q). (sint ret, unat pr, q))
       (freq_tbl_determine_rate prop_rcg (Some ex_tbl) 50000000 0 None)
     = Inr (100000000, 200000000, Some 1)"
    by simp
  from pr2 have "pr = 200000000" by (simp add: word_unat_eq_iff)
  with pr(1) pr(3) par
  have a': "freq_tbl_determine_rate prop_rcg (Some ex_tbl) 50000000 0 None
     = Inr (100000000, 200000000, Some 1)"
    by simp
  from t2 [THEN conjunct2, THEN conjunct1, THEN spec, THEN spec, THEN mp, of 1 ?fe] found m
  have b: "freq_tbl_determine_rate ex_rcg (Some ex_tbl) 50000000 0 None
     = Inr (100000000, 800000000, Some 1)"
    by (auto simp: ex_rcg_def ex_clk_def CLK_SET_RATE_PARENT_def)
  from t3 [THEN conjunct1, THEN mp, OF none]
  have c: "map_sum id (\<lambda>(ret, pr, q). (sint ret, pr, q))
       (freq_tbl_determine_rate ex_rcg (Some ex_tbl) 200000000 7 None) = Inr (- 22, 7, None)"
    by simp
  from t1 [THEN conjunct2, THEN conjunct2] a'
  have d: "clk_rcg2_determine_rate prop_rcg 50000000 0 None = Inr (100000000, 200000000, Some 1)"
    by (simp add: prop_rcg_def ex_rcg_def)
  from a pv b c d show ?thesis by simp
qed

text \<open>
  C8 as stated fails, on a 32-bit \<open>unsigned long\<close> and a clock that permits
  propagation. For the record of 4 GHz with \<open>pre_div = 5\<close> the parent rate reported is
  3410065408, where halving and multiplying by \<open>preDivider + 1\<close> give 12000000000, and
  the \<open>long\<close> returned is \<open>-294967296\<close>, not the record's frequency. For the record of
  3.2 GHz with \<open>n / m = 2 / 1\<close> the parent rate reported is 2105032704, not 6400000000.
  For the record of 4294967274 Hz the \<open>long\<close> returned is \<open>-22\<close>, which is \<open>-EINVAL\<close>,
  as when the lookup fails. A record with \<open>n = 2\<close> and \<open>m = 0\<close> divides by zero.
\<close>

theorem freq_tbl_determine_rate_wraps:
  "find_freq (Some tbl_high) 4000000000 = Inr (Some (1, tbl_high ! 1))
   \<and> map_sum id (\<lambda>(ret, pr, q). (sint ret, unat pr, q))
       (freq_tbl_determine_rate prop_rcg (Some tbl_high) 4000000000 0 None)
     = Inr (- 294967296, 3410065408, Some 1)
   \<and> unat (freq (tbl_high ! 1)) = 4000000000
   \<and> parent_rate_to_request 4000000000 (unat (pre_div (tbl_high ! 1)))
       (unat (tbl_m (tbl_high ! 1))) (unat (tbl_n (tbl_high ! 1))) = 12000000000
   \<and> find_freq (Some tbl_high) 3200000000 = Inr (Some (0, tbl_high ! 0))
   \<and> map_sum id (\<lambda>(ret, pr, q). (unat ret, unat pr, q))
       (freq_tbl_determine_rate prop_rcg (Some tbl_high) 3200000000 0 None)
     = Inr (3200000000, 2105032704, Some 0)
   \<and> parent_rate_to_request 3200000000 (unat (pre_div (tbl_high ! 0)))
       (unat (tbl_m (tbl_high ! 0))) (unat (tbl_n (tbl_high ! 0))) = 6400000000
   \<and> find_freq (Some tbl_high) 4294967274 = Inr (Some (2, tbl_high ! 2))
   \<and> map_sum id (\<lambda>(ret, pr, q). (sint ret, unat pr, q))
       (freq_tbl_determine_rate prop_rcg (Some tbl_high) 4294967274 0 None)
     = Inr (- EINVAL, 4294967274, Some 2)
   \<and> find_freq (Some tbl_high) 4294967295 = Inr None
   \<and> map_sum id (\<lambda>(ret, pr, q). (sint ret, unat pr, q))
       (freq_tbl_determine_rate prop_rcg (Some tbl_high) 4294967295 0 None)
     = Inr (- EINVAL, 0, None)
   \<and> find_freq (Some tbl_m0) 19200000 = Inr (Some (0, tbl_m0 ! 0))
   \<and> freq_tbl_determine_rate prop_rcg (Some tbl_m0) 19200000 0 None = Inl Div_by_zero"
  by (simp add: freq_tbl_determine_rate_def find_freq_def tbl_high_def tbl_m0_def
      prop_rcg_def prop_clk_def ex_rcg_def ex_clk_def CLK_SET_RATE_PARENT_def EINVAL_def
      parent_rate_to_request_def pre_scaled_def Let_def)

section \<open>Parent query\<close>

lemma parent_map_scan_Some:
  "parent_map_scan pm cfg num i = Inr (Some k) \<Longrightarrow>
     i \<le> k \<and> k < num \<and> k < length pm \<and> cfg = ucast (pm ! k) \<and>
     (\<forall>j. i \<le> j \<and> j < k \<longrightarrow> cfg \<noteq> ucast (pm ! j))"
proof (induction pm cfg num i rule: parent_map_scan.induct)
  case (1 pm cfg num i)
  note eq = parent_map_scan.simps [of pm cfg num i]
  from "1.prems" have a: "i < num" "i < length pm"
    unfolding eq by (auto split: if_splits)
  show ?case
  proof (cases "cfg = ucast (pm ! i)")
    case True
    from "1.prems" have "k = i"
      unfolding eq using a True by (simp split: if_splits)
    with a True show ?thesis by auto
  next
    case False
    from "1.prems" have "parent_map_scan pm cfg num (Suc i) = Inr (Some k)"
      unfolding eq using a False by (simp split: if_splits)
    from "1.IH" [OF a False this] have ih:
      "Suc i \<le> k" "k < num" "k < length pm" "cfg = ucast (pm ! k)"
      "\<forall>j. Suc i \<le> j \<and> j < k \<longrightarrow> cfg \<noteq> ucast (pm ! j)"
      by blast+
    have "cfg \<noteq> ucast (pm ! j)" if "i \<le> j" "j < k" for j
    proof (cases "j = i")
      case True
      with False show ?thesis by simp
    next
      case False
      with that have "Suc i \<le> j" by simp
      with ih(5) that show ?thesis by blast
    qed
    with ih show ?thesis by simp

  qed
qed

lemma parent_map_scan_no_match:
  "num \<le> length pm \<Longrightarrow> \<forall>j. i \<le> j \<and> j < num \<longrightarrow> cfg \<noteq> ucast (pm ! j) \<Longrightarrow>
     parent_map_scan pm cfg num i = Inr None"
proof (induction pm cfg num i rule: parent_map_scan.induct)
  case (1 pm cfg num i)
  note eq = parent_map_scan.simps [of pm cfg num i]
  show ?case
  proof (cases "i < num")
    case True
    with "1.prems" have a: "i < length pm" "cfg \<noteq> ucast (pm ! i)" by auto
    from "1.prems" have "\<forall>j. Suc i \<le> j \<and> j < num \<longrightarrow> cfg \<noteq> ucast (pm ! j)" by auto
    from "1.IH" [OF True a "1.prems"(1) this] True a show ?thesis
      unfolding eq by simp
  next
    case False
    then show ?thesis unfolding eq by simp
  qed
qed

lemma parent_map_scan_first:
  "num \<le> length pm \<Longrightarrow> i \<le> k \<Longrightarrow> k < num \<Longrightarrow> cfg = ucast (pm ! k) \<Longrightarrow>
     \<forall>j. i \<le> j \<and> j < k \<longrightarrow> cfg \<noteq> ucast (pm ! j) \<Longrightarrow>
     parent_map_scan pm cfg num i = Inr (Some k)"
proof (induction pm cfg num i rule: parent_map_scan.induct)
  case (1 pm cfg num i)
  note eq = parent_map_scan.simps [of pm cfg num i]
  from "1.prems" have a: "i < num" "i < length pm" by auto
  show ?case
  proof (cases "i = k")
    case True
    with a "1.prems"(4) show ?thesis
      unfolding eq by simp
  next
    case False
    with "1.prems" have b: "cfg \<noteq> ucast (pm ! i)" "Suc i \<le> k" by auto
    from "1.prems" have "\<forall>j. Suc i \<le> j \<and> j < k \<longrightarrow> cfg \<noteq> ucast (pm ! j)" by auto
    from "1.IH" [OF a b(1) "1.prems"(1) b(2) "1.prems"(3,4) this] a b show ?thesis
      unfolding eq by simp
  qed
qed

lemma u8_of_index: "i < 256 \<Longrightarrow> unat (word_of_int (int i) :: u8) = i"
  by (simp add: unat_of_nat)

text \<open>
  C9, as amended. After a successful read of the config register,
  \<open>clk_rcg2_get_parent\<close> returns the least index below the number of parents whose
  \<open>parent_map\<close> entry equals the select field (bits 8 to 10). If no index matches it
  returns 234, which is \<open>-EINVAL\<close> converted to the function's return type \<open>u8\<close>;
  that value differs from every valid parent index when the clock has at most 234
  parents. (\<open>parent_map\<close> holds an entry for each parent.)
\<close>

theorem clk_rcg2_get_parent_index:
  assumes rd: "regmap_read w (cmd_rcgr rcg + CFG_REG) = (Inr cfg, w1)"
      and wf: "unat (clk_num_parents (hw_clk rcg)) \<le> length (parent_map rcg)"
  shows "(\<forall>i. i < unat (clk_num_parents (hw_clk rcg)) \<and>
              ucast (parent_map rcg ! i) = drop_bit CFG_SRC_SEL_SHIFT (cfg AND CFG_SRC_SEL_MASK) \<and>
              (\<forall>j<i. ucast (parent_map rcg ! j) \<noteq> drop_bit CFG_SRC_SEL_SHIFT (cfg AND CFG_SRC_SEL_MASK))
            \<longrightarrow> clk_rcg2_get_parent rcg w = Inr (word_of_int (int i), w1) \<and>
                unat (word_of_int (int i) :: u8) = i)
       \<and> ((\<forall>i < unat (clk_num_parents (hw_clk rcg)).
              ucast (parent_map rcg ! i) \<noteq> drop_bit CFG_SRC_SEL_SHIFT (cfg AND CFG_SRC_SEL_MASK))
            \<longrightarrow> clk_rcg2_get_parent rcg w = Inr (234, w1) \<and>
                (unat (clk_num_parents (hw_clk rcg)) \<le> 234 \<longrightarrow>
                   (\<forall>i < unat (clk_num_parents (hw_clk rcg)). (word_of_int (int i) :: u8) \<noteq> 234)))"
proof (intro conjI allI impI)
  let ?num = "unat (clk_num_parents (hw_clk rcg))"
  let ?field = "drop_bit CFG_SRC_SEL_SHIFT (cfg AND CFG_SRC_SEL_MASK)"
  have num: "?num < 256" using unsigned_less [of "clk_num_parents (hw_clk rcg)"] by simp
  {
    fix i
    assume h: "i < ?num \<and> ucast (parent_map rcg ! i) = ?field \<and>
               (\<forall>j<i. ucast (parent_map rcg ! j) \<noteq> ?field)"
    then have "parent_map_scan (parent_map rcg) ?field ?num 0 = Inr (Some i)"
      using wf by (intro parent_map_scan_first) auto
    with rd show "clk_rcg2_get_parent rcg w = Inr (word_of_int (int i), w1)"
      by (simp add: clk_rcg2_get_parent_def Let_def)
    from h num show "unat (word_of_int (int i) :: u8) = i"
      by (intro u8_of_index) simp
  }
  {
    assume h: "\<forall>i < ?num. ucast (parent_map rcg ! i) \<noteq> ?field"
    then have "parent_map_scan (parent_map rcg) ?field ?num 0 = Inr None"
      using wf by (intro parent_map_scan_no_match) auto
    with rd show "clk_rcg2_get_parent rcg w = Inr (234, w1)"
      by (simp add: clk_rcg2_get_parent_def Let_def EINVAL_def)
    {
      fix i
      assume "?num \<le> 234" "i < ?num"
      then have "i < 234" by simp
      then have "unat (word_of_int (int i) :: u8) = i" by (intro u8_of_index) simp
      with \<open>i < 234\<close> show "(word_of_int (int i) :: u8) \<noteq> 234" by auto
    }
  }
qed


theorem clk_rcg2_get_parent_index_witness:
  "map_sum id fst (clk_rcg2_get_parent ex_rcg (ex_world\<lparr>regs := (\<lambda>r. 0x2100)\<rparr>)) = Inr 1
   \<and> map_sum id fst (clk_rcg2_get_parent ex_rcg (ex_world\<lparr>regs := (\<lambda>r. 0x2700)\<rparr>)) = Inr 234
   \<and> (word_of_int (int 2) :: u8) \<noteq> 234"
proof -
  let ?w = "ex_world\<lparr>regs := (\<lambda>r. 0x2100)\<rparr>"
  let ?v = "ex_world\<lparr>regs := (\<lambda>r. 0x2700)\<rparr>"
  let ?reg = "cmd_rcgr ex_rcg + CFG_REG"
  have fa: "fst (regmap_read ?w ?reg) = Inr 0x2100"
    by (simp add: regmap_read_def Let_def ex_world_def hw_tick_def ex_rcg_def CFG_REG_def)
  have fb: "fst (regmap_read ?v ?reg) = Inr 0x2700"
    by (simp add: regmap_read_def Let_def ex_world_def hw_tick_def ex_rcg_def CFG_REG_def)
  obtain wa where a: "regmap_read ?w ?reg = (Inr 0x2100, wa)"
    using fa by (cases "regmap_read ?w ?reg") simp
  obtain wb where b: "regmap_read ?v ?reg = (Inr 0x2700, wb)"
    using fb by (cases "regmap_read ?v ?reg") simp
  have wf: "unat (clk_num_parents (hw_clk ex_rcg)) \<le> length (parent_map ex_rcg)"
    by (simp add: ex_rcg_def ex_clk_def)
  have n3: "unat (clk_num_parents (hw_clk ex_rcg)) = 3" "parent_map ex_rcg = [0, 1, 2]"
    by (simp_all add: ex_rcg_def ex_clk_def)
  have lt3: "i < 3 \<longleftrightarrow> i = 0 \<or> i = 1 \<or> i = 2" for i :: nat by auto
  have m1: "1 < unat (clk_num_parents (hw_clk ex_rcg)) \<and>
      ucast (parent_map ex_rcg ! 1) = drop_bit CFG_SRC_SEL_SHIFT ((0x2100 :: u32) AND CFG_SRC_SEL_MASK) \<and>
      (\<forall>j<1. ucast (parent_map ex_rcg ! j) \<noteq> drop_bit CFG_SRC_SEL_SHIFT ((0x2100 :: u32) AND CFG_SRC_SEL_MASK))"
    by (simp add: n3 CFG_SRC_SEL_SHIFT_def CFG_SRC_SEL_MASK_def)
  have m2: "\<forall>i < unat (clk_num_parents (hw_clk ex_rcg)).
      ucast (parent_map ex_rcg ! i) \<noteq> drop_bit CFG_SRC_SEL_SHIFT ((0x2700 :: u32) AND CFG_SRC_SEL_MASK)"
    by (auto simp: n3 lt3 CFG_SRC_SEL_SHIFT_def CFG_SRC_SEL_MASK_def)
  note ta = clk_rcg2_get_parent_index [OF a wf]
  note tb = clk_rcg2_get_parent_index [OF b wf]
  from conjunct1 [OF ta, THEN spec, of 1, THEN mp, OF m1]
  have r1: "clk_rcg2_get_parent ex_rcg ?w = Inr (word_of_int (int 1), wa)"
    by (rule conjunct1)
  from conjunct2 [OF tb, THEN mp, OF m2]
  have r2: "clk_rcg2_get_parent ex_rcg ?v = Inr (234, wb)"
    and r3: "unat (clk_num_parents (hw_clk ex_rcg)) \<le> 234 \<longrightarrow>
                   (\<forall>i < unat (clk_num_parents (hw_clk ex_rcg)). (word_of_int (int i) :: u8) \<noteq> 234)"
    by (rule conjunct1, rule conjunct2)
  from r3 have "(word_of_int (int 2) :: u8) \<noteq> 234" by (simp add: n3)
  with r1 r2 show ?thesis by simp
qed

text \<open>
  C9 as stated fails: on a clock of 235 parents whose select field matches none of
  them, the value returned, 234, is a valid parent index.
\<close>

theorem clk_rcg2_get_parent_error_is_index:
  "map_sum id fst (clk_rcg2_get_parent many_rcg ex_world) = Inr 234
   \<and> fst (regmap_read ex_world (cmd_rcgr many_rcg + CFG_REG)) = Inr 0
   \<and> list_all (\<lambda>v. (ucast v :: u32) \<noteq> drop_bit CFG_SRC_SEL_SHIFT (0 AND CFG_SRC_SEL_MASK))
        (parent_map many_rcg)
   \<and> unat (234 :: u8) < unat (clk_num_parents (hw_clk many_rcg))
   \<and> 234 < length (parent_map many_rcg)"
proof -
  let ?reg = "cmd_rcgr many_rcg + CFG_REG"
  have fa: "fst (regmap_read ex_world ?reg) = Inr 0"
    by (simp add: regmap_read_def Let_def ex_world_def hw_tick_def)
  obtain wa where a: "regmap_read ex_world ?reg = (Inr 0, wa)"
    using fa by (cases "regmap_read ex_world ?reg") simp
  have n: "unat (clk_num_parents (hw_clk many_rcg)) = 235" "parent_map many_rcg = replicate 235 9"
    by (simp_all add: many_rcg_def ex_rcg_def ex_clk_def)
  have "parent_map_scan (parent_map many_rcg) (drop_bit CFG_SRC_SEL_SHIFT (0 AND CFG_SRC_SEL_MASK))
          (unat (clk_num_parents (hw_clk many_rcg))) 0 = Inr None"
    by (rule parent_map_scan_no_match) (simp_all add: n)
  with a have r: "clk_rcg2_get_parent many_rcg ex_world = Inr (234, wa)"
    by (simp add: clk_rcg2_get_parent_def Let_def EINVAL_def)
  have "list_all (\<lambda>v. (ucast v :: u32) \<noteq> drop_bit CFG_SRC_SEL_SHIFT (0 AND CFG_SRC_SEL_MASK))
        (parent_map many_rcg)"
    by (simp add: n list_all_iff)
  with r fa show ?thesis by (simp add: n)
qed

section \<open>The two set-rate entry points\<close>

lemma sel_field_written:
  fixes old de :: u32 and pd pm :: u8 and h :: nat
  assumes de: "\<And>n. bit de n \<longleftrightarrow> n = 13"
  defines "msk \<equiv> mask h OR (push_bit 8 (mask 3) OR push_bit 12 (mask 2))"
  defines "val \<equiv> \<lambda>frac. (if frac then (ucast pd OR push_bit 8 (ucast pm)) OR de
                             else ucast pd OR push_bit 8 (ucast pm))"
  shows "drop_bit 8 (((old AND NOT msk) OR (val frac AND msk)) AND push_bit 8 (mask 3))
           = ucast pm AND mask 3"
proof -
  have pd: "\<not> bit pd (8 + n)" for n
    using bit_imp_le_length [of pd "8 + n"] by auto
  show ?thesis
    unfolding val_def msk_def
    by (intro bit_word_eqI) (auto simp: bit_simps de pd)
qed

text \<open>
  C10. \<open>clk_rcg2_set_rate\<close> and \<open>clk_rcg2_set_rate_and_parent\<close> are both
  \<open>__clk_rcg2_set_rate\<close> on the rate alone: whatever parent rate and parent index
  they are given, they return the same result and leave the same world. The parent
  selected is the matched record's: when the call returns 0 on hardware that does not
  change the config register by itself, the select field of the config register holds
  the low three bits of \<open>parent_map[src]\<close>.
\<close>

theorem set_rate_and_parent_same:
  fixes rcg :: "('l::len) clk_rcg2"
  shows "clk_rcg2_set_rate rcg rate parent_rate w = do_clk_rcg2_set_rate rcg rate w
   \<and> clk_rcg2_set_rate_and_parent rcg rate parent_rate' index w = do_clk_rcg2_set_rate rcg rate w
   \<and> (\<forall>i fe w'. find_freq (freq_tbl rcg) rate = Inr (Some (i, fe)) \<and>
                  clk_rcg2_set_rate_and_parent rcg rate parent_rate' index w = Inr (0, w') \<and>
                  untouched w (cmd_rcgr rcg + CFG_REG) \<longrightarrow>
          drop_bit CFG_SRC_SEL_SHIFT (regs w' (cmd_rcgr rcg + CFG_REG) AND CFG_SRC_SEL_MASK)
            = ucast (parent_map rcg ! unat (src fe)) AND mask 3)"
proof (intro conjI allI impI)
  show "clk_rcg2_set_rate rcg rate parent_rate w = do_clk_rcg2_set_rate rcg rate w"
    by (simp add: clk_rcg2_set_rate_def)
  show "clk_rcg2_set_rate_and_parent rcg rate parent_rate' index w = do_clk_rcg2_set_rate rcg rate w"
    by (simp add: clk_rcg2_set_rate_and_parent_def)
next
  fix i fe w'
  assume h: "find_freq (freq_tbl rcg) rate = Inr (Some (i, fe)) \<and>
             clk_rcg2_set_rate_and_parent rcg rate parent_rate' index w = Inr (0, w') \<and>
             untouched w (cmd_rcgr rcg + CFG_REG)"
  then have run: "do_clk_rcg2_set_rate rcg rate w = Inr (0, w')"
    by (simp add: clk_rcg2_set_rate_and_parent_def)
  from do_set_rate_reaches_cfg [OF _ run] h obtain w1 where w1:
    "regs w1 (cmd_rcgr rcg + CFG_REG) = regs w (cmd_rcgr rcg + CFG_REG)"
    "untouched w1 (cmd_rcgr rcg + CFG_REG)" "set_rate_cfg rcg fe w1 = Inr (0, w')"
    by blast
  note wr = set_rate_cfg_written [OF w1(3) w1(2)]
  show "drop_bit CFG_SRC_SEL_SHIFT (regs w' (cmd_rcgr rcg + CFG_REG) AND CFG_SRC_SEL_MASK)
            = ucast (parent_map rcg ! unat (src fe)) AND mask 3"
    unfolding wr sel_mask CFG_SRC_SEL_SHIFT_def
    by (rule sel_field_written [OF dual_edge])
qed

theorem set_rate_and_parent_same_witness:
  "clk_rcg2_set_rate_and_parent ex_rcg 50000000 19200000 2 ex_world
     = clk_rcg2_set_rate ex_rcg 50000000 0 ex_world
   \<and> map_sum id fst (clk_rcg2_set_rate_and_parent ex_rcg 50000000 19200000 2 ex_world) = Inr 0
   \<and> drop_bit 8 (regs (snd (projr (clk_rcg2_set_rate_and_parent ex_rcg 50000000 19200000 2 ex_world)))
                 0x1908 AND 0x700) = 1"
proof -
  let ?fe = "\<lparr>freq = 100000000, src = 1, pre_div = 3, tbl_m = 1, tbl_n = 2\<rparr> :: 32 freq_tbl"
  note t = set_rate_and_parent_same [of ex_rcg 50000000 0 ex_world 19200000 2]
  have ret: "map_sum id fst (clk_rcg2_set_rate_and_parent ex_rcg 50000000 19200000 2 ex_world) = Inr 0"
    by (simp add: clk_rcg2_set_rate_and_parent_def model_defs example_defs
        update_config_poll_numeral)
  then obtain w' where run:
    "clk_rcg2_set_rate_and_parent ex_rcg 50000000 19200000 2 ex_world = Inr (0, w')"
    by (cases "clk_rcg2_set_rate_and_parent ex_rcg 50000000 19200000 2 ex_world") auto
  have found: "find_freq (freq_tbl ex_rcg) 50000000 = Inr (Some (1, ?fe))"
    by (simp add: find_freq_def ex_rcg_def ex_tbl_def)
  have quiet: "untouched ex_world (cmd_rcgr ex_rcg + CFG_REG)"
    by (simp add: untouched_def ex_world_def ex_rcg_def CFG_REG_def)
  from t [THEN conjunct2, THEN conjunct2, THEN spec, THEN spec, THEN spec, THEN mp,
      of 1 ?fe w'] found run quiet
  have "drop_bit CFG_SRC_SEL_SHIFT (regs w' (cmd_rcgr ex_rcg + CFG_REG) AND CFG_SRC_SEL_MASK)
            = ucast (parent_map ex_rcg ! unat (src ?fe)) AND mask 3"
    by blast
  then have sel: "drop_bit 8 (regs w' 0x1908 AND 0x700) = 1"
    by (simp add: CFG_SRC_SEL_SHIFT_def CFG_SRC_SEL_MASK_def ex_rcg_def CFG_REG_def
        mask_eq_exp_minus_1)
  from t have "clk_rcg2_set_rate_and_parent ex_rcg 50000000 19200000 2 ex_world
     = clk_rcg2_set_rate ex_rcg 50000000 0 ex_world"
    by simp
  with ret run sel show ?thesis by simp
qed

end
